theory Spec2Isabelle
  imports Main "HOL-Library.Sublist" "HOL-Library.Char_ord" "HOL-Library.List_Lexorder"
    "HOL-Library.AList"
begin

section \<open>Python string primitives\<close>

text \<open>
  Strings are character lists. The model is exact for ASCII text, which is what host
  names, URLs and the whitelist file hold; a byte above 127 is treated as a character
  that is neither a letter nor white space.
\<close>

definition LF :: char where
  "LF = CHR 0x0A"

definition CR :: char where
  "CR = CHR 0x0D"

definition lower_chr :: "char \<Rightarrow> char" where
  \<comment> \<open>\<open>c.lower()\<close> for one character: \<open>A..Z\<close> (codes 65..90) move up by 32\<close>
  "lower_chr c =
     (let n = (of_char c :: nat) in if 65 \<le> n \<and> n \<le> 90 then char_of (n + 32) else c)"

definition py_lower :: "string \<Rightarrow> string" where
  \<comment> \<open>\<open>s.lower()\<close>\<close>
  "py_lower s = map lower_chr s"

definition py_isspace :: "char \<Rightarrow> bool" where
  \<comment> \<open>the ASCII characters \<open>str.strip()\<close> removes: TAB, LF, VT, FF, CR, FS, GS, RS, US, space\<close>
  "py_isspace c =
     (let n = (of_char c :: nat) in (9 \<le> n \<and> n \<le> 13) \<or> (28 \<le> n \<and> n \<le> 32))"

definition py_strip :: "string \<Rightarrow> string" where
  \<comment> \<open>\<open>s.strip()\<close>\<close>
  "py_strip s = rev (dropWhile py_isspace (rev (dropWhile py_isspace s)))"

fun startswith :: "string \<Rightarrow> string \<Rightarrow> bool" where
  \<comment> \<open>\<open>s.startswith(p)\<close>\<close>
  "startswith s [] = True"
| "startswith [] (p # ps) = False"
| "startswith (c # cs) (p # ps) = (c = p \<and> startswith cs ps)"

definition endswith :: "string \<Rightarrow> string \<Rightarrow> bool" where
  \<comment> \<open>\<open>s.endswith(p)\<close>\<close>
  "endswith s p = startswith (rev s) (rev p)"

fun py_in :: "string \<Rightarrow> string \<Rightarrow> bool" where
  \<comment> \<open>\<open>p in s\<close>: \<open>p\<close> occurs in \<open>s\<close> as a contiguous substring\<close>
  "py_in p [] = (p = [])"
| "py_in p (c # cs) = (startswith (c # cs) p \<or> py_in p cs)"

function py_remove :: "string \<Rightarrow> string \<Rightarrow> string" where
  \<comment> \<open>\<open>s.replace(old, '')\<close> for a non-empty \<open>old\<close>: every non-overlapping occurrence,
      scanning from the left, is deleted\<close>
  "py_remove old [] = []"
| "py_remove old (c # cs) =
     (if old \<noteq> [] \<and> startswith (c # cs) old
      then py_remove old (drop (length old) (c # cs))
      else c # py_remove old cs)"
  by pat_completeness auto
termination
  by (relation "measure (\<lambda>(old, s). length s)") auto

definition split_first :: "char \<Rightarrow> string \<Rightarrow> string" where
  \<comment> \<open>\<open>s.split(c)[0]\<close>: the text before the first \<open>c\<close>, all of \<open>s\<close> when there is none\<close>
  "split_first c s = takeWhile (\<lambda>x. x \<noteq> c) s"

section \<open>Domain normalizer\<close>

definition normalize_domain :: "string \<Rightarrow> string" where
  \<comment> \<open>\<open>ContestManager._normalize_domain\<close>\<close>
  "normalize_domain domain =
     (if domain = [] then []
      else
        let d1 = py_remove ''https://'' (py_remove ''http://'' domain);
            d2 = split_first (CHR ''/'') d1;
            d3 = split_first (CHR '':'') d2;
            d4 = py_strip (py_lower d3)
        in if d4 = [] \<or> CHR ''.'' \<notin> set d4 then [] else d4)"

section \<open>Whitelist store\<close>

text \<open>
  The whitelist file is its text, or \<open>None\<close> while the file does not exist. Opening it can
  fail (permissions, a directory in its place): \<open>readable\<close> and \<open>writable\<close> say whether
  \<open>open(..., 'r')\<close> and \<open>open(..., 'w')\<close> succeed. Both \<open>load_whitelist\<close> and
  \<open>save_whitelist\<close> catch every exception.
\<close>

record fs =
  whitelist_file :: "string option"
  readable :: bool
  writable :: bool

datatype msg = Status string | Warning string | Error string

fun universal_newlines :: "string \<Rightarrow> string" where
  \<comment> \<open>reading in text mode: \<open>\r\n\<close> and a lone \<open>\r\<close> arrive as \<open>\n\<close>\<close>
  "universal_newlines [] = []"
| "universal_newlines [c] = (if c = CR then [LF] else [c])"
| "universal_newlines (c # d # cs) =
     (if c = CR \<and> d = LF then LF # universal_newlines cs
      else if c = CR then LF # universal_newlines (d # cs)
      else c # universal_newlines (d # cs))"

fun file_lines_acc :: "string \<Rightarrow> string \<Rightarrow> string list" where
  \<comment> \<open>\<open>for line in f\<close>: each line keeps its terminating \<open>\n\<close>; \<open>cur\<close> is the line being
      read, reversed\<close>
  "file_lines_acc cur [] = (if cur = [] then [] else [rev cur])"
| "file_lines_acc cur (c # cs) =
     (if c = LF then rev (c # cur) # file_lines_acc [] cs else file_lines_acc (c # cur) cs)"

definition file_lines :: "string \<Rightarrow> string list" where
  "file_lines text = file_lines_acc [] (universal_newlines text)"

definition load_whitelist :: "fs \<Rightarrow> string set" where
  \<comment> \<open>\<open>ContestManager.load_whitelist\<close>\<close>
  "load_whitelist s =
     (case whitelist_file s of
        None \<Rightarrow> {}
      | Some text \<Rightarrow>
          if \<not> readable s then {}
          else set (map py_lower
                 (filter (\<lambda>line. line \<noteq> [] \<and> \<not> startswith line ''#'')
                    (map py_strip (file_lines text)))))"

definition whitelist_header :: string where
  "whitelist_header =
     ''# Contest Environment Manager - Whitelisted Sites'' @ [LF] @
     ''# Add one domain per line'' @ [LF] @
     ''# Comments start with #'' @ [LF, LF]"

definition header_lines :: "string list" where
  \<comment> \<open>the lines of \<open>whitelist_header\<close>, without their terminators\<close>
  "header_lines = [''# Contest Environment Manager - Whitelisted Sites'',
     ''# Add one domain per line'', ''# Comments start with #'', []]"

definition whitelist_text :: "string set \<Rightarrow> string" where
  \<comment> \<open>what \<open>save_whitelist\<close> writes: the header, then \<open>sorted(domains)\<close>, one per line\<close>
  "whitelist_text domains =
     whitelist_header @ concat (map (\<lambda>domain. domain @ [LF]) (sorted_list_of_set domains))"

definition save_whitelist :: "fs \<Rightarrow> string set \<Rightarrow> bool \<times> fs" where
  \<comment> \<open>\<open>ContestManager.save_whitelist\<close>\<close>
  "save_whitelist s domains =
     (if writable s then (True, s\<lparr>whitelist_file := Some (whitelist_text domains)\<rparr>)
      else (False, s))"

definition add_domain :: "fs \<Rightarrow> string \<Rightarrow> bool \<times> msg list \<times> fs" where
  \<comment> \<open>\<open>ContestManager.add_domain\<close>: the return value, what is printed, the files after\<close>
  "add_domain s raw =
     (let domain = normalize_domain raw in
      if domain = [] then (False, [Error ''Invalid domain format''], s)
      else
        let domains = load_whitelist s in
        if domain \<in> domains then (True, [Warning ''already in the whitelist''], s)
        else
          case save_whitelist s (insert domain domains) of
            (True, s') \<Rightarrow> (True, [Status ''Added'', Status ''Total domains''], s')
          | (False, s') \<Rightarrow> (False, [Error ''Failed to add''], s'))"

definition remove_domain :: "fs \<Rightarrow> string \<Rightarrow> bool \<times> msg list \<times> fs" where
  \<comment> \<open>\<open>ContestManager.remove_domain\<close>\<close>
  "remove_domain s raw =
     (let domain = normalize_domain raw in
      if domain = [] then (False, [Error ''Invalid domain format''], s)
      else
        let domains = load_whitelist s in
        if domain \<notin> domains then (True, [Warning ''not in the whitelist''], s)
        else
          case save_whitelist s (domains - {domain}) of
            (True, s') \<Rightarrow> (True, [Status ''Removed'', Status ''Total domains''], s')
          | (False, s') \<Rightarrow> (False, [Error ''Failed to remove''], s'))"

definition list_domains :: "fs \<Rightarrow> string list" where
  \<comment> \<open>\<open>ContestManager.list_domains\<close>\<close>
  "list_domains s = sorted_list_of_set (load_whitelist s)"

datatype command = Add string | Remove string

definition main :: "bool \<Rightarrow> fs \<Rightarrow> command \<Rightarrow> nat \<times> msg list \<times> fs" where
  \<comment> \<open>the \<open>add\<close> and \<open>remove\<close> branches of \<open>main\<close> in \<open>cli/main.py\<close>, entered once the
      manager exists: \<open>check_root()\<close> prints and exits 1 unless the effective uid is 0,
      then the exit code is 0 on success and 1 otherwise\<close>
  "main is_root s cmd =
     (if \<not> is_root then (1, [Error ''This command must be run as root''], s)
      else
        let (success, out, s') =
              (case cmd of Add domain \<Rightarrow> add_domain s domain
                         | Remove domain \<Rightarrow> remove_domain s domain)
        in (if success then 0 else 1, out, s'))"

section \<open>Dependency analyzer\<close>

definition blocked_keywords :: "string list" where
  "blocked_keywords =
     [''openai'', ''chatgpt'', ''anthropic'', ''claude'', ''gemini'', ''bard'',
      ''google'', ''bing'', ''yahoo'', ''duckduckgo'', ''yandex'', ''baidu'',
      ''facebook'', ''twitter'', ''instagram'', ''linkedin'', ''reddit'', ''discord'',
      ''telegram'', ''whatsapp'', ''tiktok'', ''youtube'', ''snapchat'',
      ''github'', ''gitlab'', ''stackoverflow'', ''stackexchange'', ''medium'',
      ''dev.to'', ''hackernews'', ''codepen'', ''jsfiddle'',
      ''wikipedia'', ''w3schools'', ''tutorialspoint'', ''freecodecamp'',
      ''coursera'', ''udemy'', ''khan'', ''edx'',
      ''amazon'', ''ebay'', ''alibaba'', ''shopify'',
      ''dropbox'', ''onedrive'', ''icloud'', ''mega'',
      ''cnn'', ''bbc'', ''reuters'', ''news'', ''techcrunch'']"

definition essential_keywords :: "string list" where
  "essential_keywords =
     [''cdn'', ''static'', ''assets'', ''img'', ''css'', ''js'', ''fonts'',
      ''cloudflare'', ''cloudfront'', ''fastly'', ''jsdelivr'', ''unpkg'',
      ''bootstrapcdn'', ''jquery'', ''ajax'', ''gstatic'',
      ''captcha'', ''recaptcha'', ''hcaptcha'', ''auth'', ''oauth'',
      ''ssl'', ''tls'', ''cert'', ''security'',
      ''api'', ''webhook'', ''analytics'', ''tracking'',
      ''mathjax'', ''katex'', ''mermaid'', ''highlight'',
      ''fontawesome'', ''typekit'', ''googlefonts'']"

definition cdn_patterns :: "string list" where
  "cdn_patterns =
     [''cdn.'', ''static.'', ''assets.'', ''img.'', ''css.'', ''js.'',
      ''fonts.'', ''api.'', ''auth.'', ''ssl.'', ''captcha'']"

definition common_cdns :: "string list" where
  "common_cdns = [''cloudflare'', ''fastly'', ''amazon'', ''microsoft'', ''akamai'']"

definition is_blocked :: "string \<Rightarrow> bool" where
  \<comment> \<open>\<open>any(keyword in dep.lower() for keyword in self.blocked_keywords)\<close>\<close>
  "is_blocked dep = list_ex (\<lambda>keyword. py_in keyword (py_lower dep)) blocked_keywords"

definition is_essential :: "string \<Rightarrow> bool" where
  "is_essential dep = list_ex (\<lambda>keyword. py_in keyword (py_lower dep)) essential_keywords"

definition is_cdn :: "string \<Rightarrow> bool" where
  "is_cdn dep = list_ex (\<lambda>pattern. py_in pattern (py_lower dep)) cdn_patterns"

definition is_common_cdn :: "string \<Rightarrow> bool" where
  \<comment> \<open>\<open>dep.endswith(('.net', '.io')) and any(cdn in dep.lower() for cdn in [...])\<close>\<close>
  "is_common_cdn dep =
     ((endswith dep ''.net'' \<or> endswith dep ''.io'')
      \<and> list_ex (\<lambda>cdn. py_in cdn (py_lower dep)) common_cdns)"

definition keep_dependency :: "string \<Rightarrow> bool" where
  \<comment> \<open>the body of the loop of \<open>filter_dependencies\<close>: a blocked host leaves the
      iteration at \<open>continue\<close>, before the other three tests are made\<close>
  "keep_dependency dep =
     (if is_blocked dep then False
      else is_essential dep \<or> is_cdn dep \<or> is_common_cdn dep)"

definition filter_dependencies :: "string set \<Rightarrow> string set" where
  \<comment> \<open>\<open>DependencyAnalyzer.filter_dependencies\<close>, the same text in both trees apart from
      what is printed\<close>
  "filter_dependencies dependencies = Set.filter keep_dependency dependencies"

definition spec_essential :: "string \<Rightarrow> bool" where
  \<comment> \<open>the classification in the words of the specification: an essential keyword as a
      substring, or a CDN-path pattern as a prefix of the host, or a \<open>.net\<close>/\<open>.io\<close>
      ending together with the name of a big CDN\<close>
  "spec_essential host =
     (list_ex (\<lambda>keyword. py_in keyword (py_lower host)) essential_keywords
      \<or> list_ex (\<lambda>pattern. startswith (py_lower host) pattern) cdn_patterns
      \<or> ((endswith host ''.net'' \<or> endswith host ''.io'')
          \<and> list_ex (\<lambda>cdn. py_in cdn (py_lower host))
               [''cloudflare'', ''fastly'', ''amazon'', ''microsoft'', ''akamai'']))"

definition extract_domain :: "(string \<Rightarrow> string option) \<Rightarrow> string \<Rightarrow> string option" where
  \<comment> \<open>\<open>DependencyAnalyzer.extract_domain\<close>. \<open>urlparse\<close> belongs to the standard library:
      \<open>netloc_of url\<close> is \<open>urlparse(url).netloc\<close>, or \<open>None\<close> where \<open>urlparse\<close> raises, which
      the bare \<open>except\<close> turns into the result \<open>None\<close>\<close>
  "extract_domain netloc_of url =
     (case netloc_of url of
        None \<Rightarrow> None
      | Some netloc \<Rightarrow>
          let domain = py_lower netloc;
              domain = (if CHR '':'' \<in> set domain then split_first (CHR '':'') domain else domain);
              domain = (if startswith domain ''www.'' then drop 4 domain else domain)
          in if domain \<noteq> [] then Some domain else None)"

fun collect_dependencies ::
  "(string \<Rightarrow> string option) \<Rightarrow> string \<Rightarrow> string option list \<Rightarrow> string set \<Rightarrow> string set" where
  \<comment> \<open>the loop over \<open>har['log']['entries']\<close> in \<open>analyze_domain\<close>. An entry is its request
      URL, or \<open>None\<close> when \<open>entry['request']['url']\<close> raises: the exception ends the loop
      and the hosts gathered so far are kept\<close>
  "collect_dependencies netloc_of domain [] dependencies = dependencies"
| "collect_dependencies netloc_of domain (None # entries) dependencies = dependencies"
| "collect_dependencies netloc_of domain (Some req_url # entries) dependencies =
     collect_dependencies netloc_of domain entries
       (case extract_domain netloc_of req_url of
          None \<Rightarrow> dependencies
        | Some dep_domain \<Rightarrow>
            if dep_domain \<noteq> domain then insert dep_domain dependencies else dependencies)"

definition analyze_domain ::
  "(string \<Rightarrow> string option) \<Rightarrow> string \<Rightarrow> string option list option \<Rightarrow> string set" where
  \<comment> \<open>\<open>DependencyAnalyzer.analyze_domain\<close> of \<open>contest_manager/utils\<close>. The browser is
      outside the program: \<open>har\<close> is the list of entries of the HAR file it leaves, or
      \<open>None\<close> when the page load or the reading of the file raises\<close>
  "analyze_domain netloc_of domain har =
     filter_dependencies
       (case har of
          None \<Rightarrow> {}
        | Some entries \<Rightarrow> collect_dependencies netloc_of domain entries {})"

definition is_scheme_char :: "char \<Rightarrow> bool" where
  "is_scheme_char c =
     (c \<in> set ''abcdefghijklmnopqrstuvwxyzABCDEFGHIJKLMNOPQRSTUVWXYZ0123456789+-.'')"

definition url_netloc :: "string \<Rightarrow> string option" where
  \<comment> \<open>\<open>urlparse(url).netloc\<close> for an ASCII URL without brackets and control characters:
      a leading scheme (a letter, then scheme characters, up to the first \<open>:\<close>) is cut off,
      and when \<open>//\<close> follows, the netloc is the text up to the next \<open>/\<close>, \<open>?\<close> or
      \<open>#\<close>. It is used for concrete URLs only; the general statements hold for every
      \<open>netloc_of\<close>\<close>
  "url_netloc url =
     (let scheme = takeWhile (\<lambda>c. c \<noteq> CHR '':'') url;
          rest = (if CHR '':'' \<in> set url \<and> scheme \<noteq> []
                     \<and> hd scheme \<in> set ''abcdefghijklmnopqrstuvwxyzABCDEFGHIJKLMNOPQRSTUVWXYZ''
                     \<and> list_all is_scheme_char scheme
                  then drop (Suc (length scheme)) url else url)
      in if startswith rest ''//''
         then Some (takeWhile (\<lambda>c. c \<notin> set ''/?#'') (drop 2 rest))
         else Some [])"

section \<open>Dependency cache\<close>

text \<open>
  The cache file is a JSON object from a domain to the list of its dependencies: a map,
  or \<open>None\<close> while the file does not exist. \<open>analyze domain\<close> stands for
  \<open>list(analyzer.analyze_domain(domain))\<close>, with \<open>None\<close> where the call raises.
\<close>

type_synonym cache = "string \<rightharpoonup> string list"

definition load_dependencies :: "cache option \<Rightarrow> cache" where
  \<comment> \<open>\<open>ContestManager.load_dependencies\<close>: the empty dictionary when there is no file\<close>
  "load_dependencies cache_file = (case cache_file of None \<Rightarrow> Map.empty | Some cache \<Rightarrow> cache)"

definition build_dependency_cache :: "(string \<Rightarrow> string list option) \<Rightarrow> string list \<Rightarrow> cache" where
  \<comment> \<open>the loop of step 3 of \<open>ContestManager.apply_restrictions\<close>, from
      \<open>dependency_cache = {}\<close>\<close>
  "build_dependency_cache analyze whitelist =
     fold (\<lambda>domain dependency_cache.
             dependency_cache(domain \<mapsto> (case analyze domain of Some deps \<Rightarrow> deps | None \<Rightarrow> [])))
          whitelist Map.empty"

definition manager_apply_restrictions ::
  "bool \<Rightarrow> bool \<Rightarrow> bool \<Rightarrow> (string \<Rightarrow> string list option) \<Rightarrow> fs \<Rightarrow> cache option
     \<Rightarrow> bool \<times> cache option" where
  \<comment> \<open>\<open>ContestManager.apply_restrictions\<close>: the return value and the cache file after.
      \<open>network_ok\<close> and \<open>usb_ok\<close> are the results of \<open>apply_network_restrictions\<close> and
      \<open>apply_usb_restrictions\<close>; \<open>cache_ok\<close> says that the analyzer can be imported and the
      cache file opened for writing, failing which the inner \<open>except\<close> prints an error and
      the run goes on\<close>
  "manager_apply_restrictions network_ok usb_ok cache_ok analyze s cache_file =
     (if \<not> network_ok then (False, cache_file)
      else if \<not> usb_ok then (False, cache_file)
      else (True,
            if cache_ok then Some (build_dependency_cache analyze (list_domains s))
            else cache_file))"

definition load_dependency_cache :: "cache option \<Rightarrow> cache" where
  \<comment> \<open>\<open>ContestRestrictor.load_dependency_cache\<close> of \<open>scripts/restrict.py\<close>\<close>
  "load_dependency_cache cache_file = (case cache_file of None \<Rightarrow> Map.empty | Some cache \<Rightarrow> cache)"

definition analyze_dependencies ::
  "bool \<Rightarrow> bool \<Rightarrow> (string \<Rightarrow> string list option) \<Rightarrow> string list \<Rightarrow> cache option \<Rightarrow> cache option" where
  \<comment> \<open>\<open>ContestRestrictor.analyze_dependencies(force_refresh)\<close> of \<open>scripts/restrict.py\<close>:
      the cache file after. \<open>whitelisted_sites\<close> lists the set of sites in the order of
      the iteration; \<open>cache_ok\<close> says that the cache file can be written\<close>
  "analyze_dependencies force_refresh cache_ok analyze whitelisted_sites cache_file =
     (let cache0 = (if force_refresh then Map.empty else load_dependency_cache cache_file);
          cache = fold (\<lambda>site cache.
                    if cache site \<noteq> None \<and> \<not> force_refresh then cache
                    else cache(site \<mapsto> (case analyze site of Some deps \<Rightarrow> deps | None \<Rightarrow> [])))
                  whitelisted_sites cache0
      in if cache_ok then Some cache else cache_file)"

definition analyze_fonts :: "string \<Rightarrow> string list option" where
  \<comment> \<open>an analyzer for the examples: every page loads one font host\<close>
  "analyze_fonts domain = Some [''fonts.gstatic.com'']"

section \<open>Firewall tables\<close>

text \<open>
  \<open>iptables\<close> and \<open>ip6tables\<close> are external programs. What the restrictor needs of them
  is modelled after iptables(8): a table is a list of named chains, each an ordered list
  of rules, a rule being the arguments that follow the chain name on the command line.
  \<open>-N\<close> creates an empty chain and fails when the name is taken; \<open>-F\<close> empties a chain;
  \<open>-X\<close> deletes a user-defined chain that is empty and that no rule jumps to; \<open>-A\<close>
  appends a rule, whose target must be a built-in target or an existing chain; \<open>-D\<close>
  deletes the first rule equal to the given one and fails when there is none. A command
  that fails leaves the table as it is and returns a non-zero code.
\<close>

type_synonym rule = "string list"

type_synonym table = "(string \<times> rule list) list"

record firewall =
  ipv4 :: table
  ipv6 :: table

definition builtin_chains :: "string list" where
  "builtin_chains = [''INPUT'', ''FORWARD'', ''OUTPUT'']"

definition builtin_targets :: "string list" where
  "builtin_targets = [''ACCEPT'', ''DROP'', ''REJECT'', ''RETURN'']"

definition fresh_table :: table where
  "fresh_table = [(''INPUT'', []), (''FORWARD'', []), (''OUTPUT'', [])]"

definition fresh_firewall :: firewall where
  "fresh_firewall = \<lparr>ipv4 = fresh_table, ipv6 = fresh_table\<rparr>"

fun jump_target :: "rule \<Rightarrow> string option" where
  \<comment> \<open>the argument of \<open>-j\<close>\<close>
  "jump_target (a # b # rest) = (if a = ''-j'' then Some b else jump_target (b # rest))"
| "jump_target _ = None"

definition referenced :: "table \<Rightarrow> string \<Rightarrow> bool" where
  "referenced t chain =
     list_ex (\<lambda>entry. list_ex (\<lambda>r. jump_target r = Some chain) (snd entry)) t"

definition target_ok :: "table \<Rightarrow> rule \<Rightarrow> bool" where
  "target_ok t spec =
     (case jump_target spec of
        None \<Rightarrow> True
      | Some target \<Rightarrow> target \<in> set builtin_targets \<or> map_of t target \<noteq> None)"

fun iptables :: "string list \<Rightarrow> table \<Rightarrow> nat \<times> table" where
  \<comment> \<open>one invocation: the arguments after the program name, the table before; the
      return code and the table after\<close>
  "iptables (opt # chain # spec) t =
     (if opt = ''-N'' then
        (if spec = [] \<and> map_of t chain = None then (0, t @ [(chain, [])]) else (1, t))
      else
        case map_of t chain of
          None \<Rightarrow> (1, t)
        | Some rules \<Rightarrow>
            if opt = ''-F'' \<and> spec = [] then (0, AList.update chain [] t)
            else if opt = ''-X'' \<and> spec = [] then
              (if chain \<in> set builtin_chains \<or> rules \<noteq> [] \<or> referenced t chain then (1, t)
               else (0, AList.delete chain t))
            else if opt = ''-A'' then
              (if target_ok t spec then (0, AList.update chain (rules @ [spec]) t) else (1, t))
            else if opt = ''-D'' then
              (if spec \<in> set rules then (0, AList.update chain (remove1 spec rules) t)
               else (1, t))
            else (2, t))"
| "iptables _ t = (2, t)"

section \<open>Network restrictor\<close>

datatype error = CalledProcessError "string list"

definition run_command :: "string list \<Rightarrow> bool \<Rightarrow> firewall \<Rightarrow> error option \<times> firewall" where
  \<comment> \<open>\<open>NetworkRestrictor.run_command(cmd, check)\<close>: the exception raised, if any, and the
      tables after. With \<open>check\<close> a non-zero return code raises \<open>CalledProcessError\<close>\<close>
  "run_command cmd check fw =
     (case cmd of
        [] \<Rightarrow> (None, fw)
      | prog # args \<Rightarrow>
          if prog = ''iptables'' then
            (let (rc, t) = iptables args (ipv4 fw)
             in (if check \<and> rc \<noteq> 0 then Some (CalledProcessError cmd) else None, fw\<lparr>ipv4 := t\<rparr>))
          else if prog = ''ip6tables'' then
            (let (rc, t) = iptables args (ipv6 fw)
             in (if check \<and> rc \<noteq> 0 then Some (CalledProcessError cmd) else None, fw\<lparr>ipv6 := t\<rparr>))
          else (None, fw))"

fun run_steps ::
  "(firewall \<Rightarrow> error option \<times> firewall) list \<Rightarrow> firewall \<Rightarrow> error option \<times> firewall" where
  \<comment> \<open>statements in sequence: the first exception ends the sequence\<close>
  "run_steps [] fw = (None, fw)"
| "run_steps (st # sts) fw =
     (case st fw of
        (Some e, fw') \<Rightarrow> (Some e, fw')
      | (None, fw') \<Rightarrow> run_steps sts fw')"

definition upper_chr :: "char \<Rightarrow> char" where
  \<comment> \<open>\<open>c.upper()\<close> for one character: \<open>a..z\<close> (codes 97..122) move down by 32\<close>
  "upper_chr c =
     (let n = (of_char c :: nat) in if 97 \<le> n \<and> n \<le> 122 then char_of (n - 32) else c)"

definition py_upper :: "string \<Rightarrow> string" where
  "py_upper s = map upper_chr s"

function str_nat :: "nat \<Rightarrow> string" where
  \<comment> \<open>\<open>str(n)\<close> for a non-negative integer\<close>
  "str_nat n =
     (if n < 10 then [''0123456789'' ! n]
      else str_nat (n div 10) @ [''0123456789'' ! (n mod 10)])"
  by pat_completeness auto
termination
  by (relation "measure id") auto

declare str_nat.simps [simp del]

record restrictor =
  user :: string
  user_uid :: nat
  chain_in :: string
  chain_out :: string

definition NetworkRestrictor :: "string \<Rightarrow> nat \<Rightarrow> restrictor" where
  \<comment> \<open>\<open>NetworkRestrictor.__init__\<close>, for a user that exists; \<open>uid\<close> is what
      \<open>pwd.getpwnam(user).pw_uid\<close> returns. The fields \<open>allowed_domains\<close> and
      \<open>domain_ips\<close> are bookkeeping that no command depends on and are left out\<close>
  "NetworkRestrictor usr uid =
     \<lparr>user = usr, user_uid = uid,
      chain_in = ''CONTEST_'' @ py_upper usr @ ''_IN'',
      chain_out = ''CONTEST_'' @ py_upper usr @ ''_OUT''\<rparr>"

definition owner_jump :: "restrictor \<Rightarrow> rule" where
  \<comment> \<open>the rule that binds the output chain to the user's UID\<close>
  "owner_jump r = [''-m'', ''owner'', ''--uid-owner'', str_nat (user_uid r), ''-j'', chain_out r]"

definition clear_existing_rules :: "restrictor \<Rightarrow> firewall \<Rightarrow> error option \<times> firewall" where
  \<comment> \<open>\<open>NetworkRestrictor.clear_existing_rules\<close>\<close>
  "clear_existing_rules r =
     run_steps
       ([run_command ([''iptables'', ''-D'', ''OUTPUT''] @ owner_jump r) False]
        @ concat (map (\<lambda>chain.
            [run_command [''iptables'', ''-F'', chain] False,
             run_command [''iptables'', ''-X'', chain] False,
             run_command [''ip6tables'', ''-F'', chain] False,
             run_command [''ip6tables'', ''-X'', chain] False])
           [chain_in r, chain_out r]))"

definition create_chains :: "restrictor \<Rightarrow> firewall \<Rightarrow> error option \<times> firewall" where
  \<comment> \<open>\<open>NetworkRestrictor.create_chains\<close>\<close>
  "create_chains r =
     run_steps
       [run_command [''iptables'', ''-N'', chain_in r] True,
        run_command [''iptables'', ''-N'', chain_out r] True,
        run_command [''ip6tables'', ''-N'', chain_in r] False,
        run_command [''ip6tables'', ''-N'', chain_out r] False]"

definition setup_default_rules :: "restrictor \<Rightarrow> firewall \<Rightarrow> error option \<times> firewall" where
  \<comment> \<open>\<open>NetworkRestrictor.setup_default_rules\<close>\<close>
  "setup_default_rules r =
     run_steps
       [run_command [''iptables'', ''-A'', chain_out r, ''-m'', ''state'',
                     ''--state'', ''ESTABLISHED,RELATED'', ''-j'', ''ACCEPT''] True,
        run_command [''iptables'', ''-A'', chain_out r, ''-d'', ''127.0.0.0/8'', ''-j'', ''ACCEPT''] True,
        run_command [''iptables'', ''-A'', chain_out r, ''-p'', ''udp'', ''--dport'', ''53'', ''-j'', ''ACCEPT''] True,
        run_command [''iptables'', ''-A'', chain_out r, ''-p'', ''tcp'', ''--dport'', ''53'', ''-j'', ''ACCEPT''] True,
        run_command [''ip6tables'', ''-A'', chain_out r, ''-m'', ''state'',
                     ''--state'', ''ESTABLISHED,RELATED'', ''-j'', ''ACCEPT''] False,
        run_command [''ip6tables'', ''-A'', chain_out r, ''-d'', ''::1/128'', ''-j'', ''ACCEPT''] False,
        run_command [''ip6tables'', ''-A'', chain_out r, ''-p'', ''udp'', ''--dport'', ''53'', ''-j'', ''ACCEPT''] False,
        run_command [''ip6tables'', ''-A'', chain_out r, ''-p'', ''tcp'', ''--dport'', ''53'', ''-j'', ''ACCEPT''] False]"

datatype rrtype = A | AAAA

datatype dns_answer = Answer "string list" | DNSException | OtherException

type_synonym resolver = "string \<Rightarrow> rrtype \<Rightarrow> dns_answer"

fun resolve_queries :: "resolver \<Rightarrow> (string \<times> rrtype) list \<Rightarrow> string list \<Rightarrow> string list" where
  \<comment> \<open>the lookups of \<open>resolve_domain_ips\<close> in turn. \<open>ips\<close> is the set gathered so far,
      kept as a duplicate-free list in order of insertion. A \<open>DNSException\<close> is passed over;
      any other exception reaches the outer \<open>except\<close>, which ends the lookups\<close>
  "resolve_queries res [] ips = ips"
| "resolve_queries res ((name, rr) # queries) ips =
     (case res name rr of
        Answer addresses \<Rightarrow>
          resolve_queries res queries
            (fold (\<lambda>ip ips. if ip \<in> set ips then ips else ips @ [ip]) addresses ips)
      | DNSException \<Rightarrow> resolve_queries res queries ips
      | OtherException \<Rightarrow> ips)"

definition resolve_domain_ips :: "resolver \<Rightarrow> string \<Rightarrow> string list" where
  \<comment> \<open>\<open>NetworkRestrictor.resolve_domain_ips\<close>\<close>
  "resolve_domain_ips res domain =
     resolve_queries res
       ([(domain, A), (domain, AAAA)]
        @ concat (map (\<lambda>subdomain. [(subdomain @ ''.'' @ domain, A), (subdomain @ ''.'' @ domain, AAAA)])
            [''www'', ''api'', ''cdn'', ''static'', ''assets'']))
       []"

fun split_on :: "char \<Rightarrow> string \<Rightarrow> string list" where
  \<comment> \<open>\<open>s.split(c)\<close>\<close>
  "split_on c [] = [[]]"
| "split_on c (x # xs) =
     (if x = c then [] # split_on c xs
      else case split_on c xs of [] \<Rightarrow> [[x]] | p # ps \<Rightarrow> (x # p) # ps)"

definition is_octet :: "string \<Rightarrow> bool" where
  \<comment> \<open>one part of a dotted quad as \<open>ipaddress\<close> accepts it: one to three decimal digits,
      no leading zero, at most 255\<close>
  "is_octet part =
     (part \<noteq> [] \<and> length part \<le> 3 \<and> list_all (\<lambda>c. c \<in> set ''0123456789'') part
      \<and> (length part = 1 \<or> hd part \<noteq> CHR ''0'')
      \<and> fold (\<lambda>c n. 10 * n + (of_char c - 48)) part (0::nat) \<le> 255)"

definition is_ipv4 :: "string \<Rightarrow> bool" where
  "is_ipv4 ip = (let parts = split_on (CHR ''.'') ip in length parts = 4 \<and> list_all is_octet parts)"

definition ip_version :: "(string \<Rightarrow> bool) \<Rightarrow> string \<Rightarrow> nat option" where
  \<comment> \<open>\<open>ipaddress.ip_address(ip).version\<close>, \<open>None\<close> for the \<open>ValueError\<close>. The IPv4 syntax
      is tried first; \<open>valid_ipv6\<close> stands for the library's test of the IPv6 syntax\<close>
  "ip_version valid_ipv6 ip =
     (if is_ipv4 ip then Some 4 else if valid_ipv6 ip then Some 6 else None)"

fun add_ip_rules :: "restrictor \<Rightarrow> (string \<Rightarrow> bool) \<Rightarrow> string list \<Rightarrow> firewall \<Rightarrow> firewall" where
  \<comment> \<open>the loop \<open>for ip in ips\<close> of \<open>add_domain_rules\<close>: every exception is caught and
      printed inside the loop\<close>
  "add_ip_rules r valid_ipv6 [] fw = fw"
| "add_ip_rules r valid_ipv6 (ip # ips) fw =
     add_ip_rules r valid_ipv6 ips
       (case ip_version valid_ipv6 ip of
          None \<Rightarrow> fw
        | Some version \<Rightarrow>
            if version = 4
            then snd (run_command [''iptables'', ''-A'', chain_out r, ''-d'', ip, ''-j'', ''ACCEPT''] True fw)
            else snd (run_command [''ip6tables'', ''-A'', chain_out r, ''-d'', ip, ''-j'', ''ACCEPT''] False fw))"

fun add_domain_rules ::
  "restrictor \<Rightarrow> resolver \<Rightarrow> (string \<Rightarrow> bool) \<Rightarrow> string list \<Rightarrow> firewall \<Rightarrow> firewall" where
  \<comment> \<open>\<open>NetworkRestrictor.add_domain_rules\<close>; the set of domains is listed in the order of
      the iteration\<close>
  "add_domain_rules r res valid_ipv6 [] fw = fw"
| "add_domain_rules r res valid_ipv6 (domain # domains) fw =
     add_domain_rules r res valid_ipv6 domains
       (add_ip_rules r valid_ipv6 (resolve_domain_ips res domain) fw)"

definition essential_cdns :: "string list" where
  "essential_cdns =
     [''cloudflare.com'', ''cloudfront.net'', ''fastly.com'',
      ''jsdelivr.net'', ''unpkg.com'', ''cdnjs.cloudflare.com'',
      ''fonts.googleapis.com'', ''fonts.gstatic.com'', ''typekit.net'',
      ''recaptcha.net'', ''hcaptcha.com'', ''gstatic.com'',
      ''mathjax.org'', ''cdn.mathjax.org'',
      ''ajax.googleapis.com'']"

definition add_essential_cdns :: "restrictor \<Rightarrow> resolver \<Rightarrow> (string \<Rightarrow> bool) \<Rightarrow> firewall \<Rightarrow> firewall" where
  \<comment> \<open>\<open>NetworkRestrictor.add_essential_cdns\<close>\<close>
  "add_essential_cdns r res valid_ipv6 = add_domain_rules r res valid_ipv6 (remdups essential_cdns)"

definition finalize_rules :: "restrictor \<Rightarrow> firewall \<Rightarrow> error option \<times> firewall" where
  \<comment> \<open>\<open>NetworkRestrictor.finalize_rules\<close>\<close>
  "finalize_rules r =
     run_steps
       [run_command [''iptables'', ''-A'', chain_out r, ''-j'', ''REJECT'',
                     ''--reject-with'', ''icmp-host-unreachable''] True,
        run_command [''ip6tables'', ''-A'', chain_out r, ''-j'', ''REJECT'',
                     ''--reject-with'', ''icmp6-adm-prohibited''] False,
        run_command ([''iptables'', ''-A'', ''OUTPUT''] @ owner_jump r) True,
        run_command ([''ip6tables'', ''-A'', ''OUTPUT''] @ owner_jump r) False]"

definition apply_restrictions ::
  "restrictor \<Rightarrow> resolver \<Rightarrow> (string \<Rightarrow> bool) \<Rightarrow> string list \<Rightarrow> string list \<Rightarrow> firewall
     \<Rightarrow> error option \<times> firewall" where
  \<comment> \<open>\<open>NetworkRestrictor.apply_restrictions(domains, dependencies)\<close>: \<open>None\<close> when it
      returns \<open>True\<close>, the exception when one leaves it. \<open>install_dependencies\<close> catches
      its exceptions and runs no firewall command\<close>
  "apply_restrictions r res valid_ipv6 domains dependencies =
     run_steps
       [clear_existing_rules r,
        create_chains r,
        setup_default_rules r,
        (\<lambda>fw. (None, add_domain_rules r res valid_ipv6 (remdups (domains @ dependencies)) fw)),
        (\<lambda>fw. (None, add_essential_cdns r res valid_ipv6 fw)),
        finalize_rules r]"

definition remove_restrictions :: "restrictor \<Rightarrow> firewall \<Rightarrow> error option \<times> firewall" where
  \<comment> \<open>the firewall commands of \<open>NetworkRestrictor.remove_restrictions\<close>\<close>
  "remove_restrictions r =
     run_steps
       ([run_command ([''iptables'', ''-D'', ''OUTPUT''] @ owner_jump r) False,
         run_command ([''ip6tables'', ''-D'', ''OUTPUT''] @ owner_jump r) False]
        @ concat (map (\<lambda>chain.
            [run_command [''iptables'', ''-F'', chain] False,
             run_command [''iptables'', ''-X'', chain] False,
             run_command [''ip6tables'', ''-F'', chain] False,
             run_command [''ip6tables'', ''-X'', chain] False])
           [chain_in r, chain_out r]))"

definition mock_resolver :: resolver where
  \<comment> \<open>the resolution of the examples: one address for \<open>example.com\<close>, no answer
      for any other name\<close>
  "mock_resolver name rr =
     (if name = ''example.com'' \<and> rr = A then Answer [''93.184.216.34''] else DNSException)"

definition no_ipv6 :: "string \<Rightarrow> bool" where
  "no_ipv6 ip = False"

definition created_table :: "restrictor \<Rightarrow> rule list \<Rightarrow> rule list \<Rightarrow> table" where
  \<comment> \<open>a table once the two chains of the user exist on top of the built-in ones: the
      rules of \<open>OUTPUT\<close> and those of the user's output chain are the parameters\<close>
  "created_table r output_rules out_rules =
     [(''INPUT'', []), (''FORWARD'', []), (''OUTPUT'', output_rules),
      (chain_in r, []), (chain_out r, out_rules)]"

section \<open>Properties of the string primitives and the normalizer\<close>

lemma lower_chr_idem: "lower_chr (lower_chr c) = lower_chr c"
  by (simp add: lower_chr_def Let_def)

lemma lower_chr_isspace: "py_isspace (lower_chr c) = py_isspace c"
  by (simp add: lower_chr_def py_isspace_def Let_def)

lemma lower_chr_eq_low: "(of_char x :: nat) < 65 \<Longrightarrow> lower_chr c = x \<longleftrightarrow> c = x"
  by (auto simp add: lower_chr_def Let_def)

lemma py_lower_idem: "py_lower (py_lower s) = py_lower s"
  by (simp add: py_lower_def lower_chr_idem)

lemma py_lower_strip: "py_lower (py_strip s) = py_strip (py_lower s)"
proof -
  have c: "py_isspace \<circ> lower_chr = py_isspace"
    by (rule ext) (simp add: lower_chr_isspace)
  show ?thesis
    by (simp add: py_lower_def py_strip_def rev_map dropWhile_map c)
qed

lemma dropWhile_hd_id: "xs \<noteq> [] \<Longrightarrow> \<not> P (hd xs) \<Longrightarrow> dropWhile P xs = xs"
  by (cases xs) auto

lemma dropWhile_last: "dropWhile P ys \<noteq> [] \<Longrightarrow> last (dropWhile P ys) = last ys"
  by (induction ys) (auto split: if_splits)

lemma strip_ends:
  assumes "py_strip s \<noteq> []"
  shows "\<not> py_isspace (hd (py_strip s))" and "\<not> py_isspace (last (py_strip s))"
proof -
  let ?a = "dropWhile py_isspace s"
  let ?b = "dropWhile py_isspace (rev ?a)"
  have b: "?b \<noteq> []" using assms by (simp add: py_strip_def)
  have a: "?a \<noteq> []"
  proof
    assume e: "?a = []"
    have "?b = []" by (simp only: e rev.simps dropWhile.simps)
    with b show False by simp
  qed
  have "\<not> py_isspace (hd ?b)" using b by (rule hd_dropWhile)
  then show "\<not> py_isspace (last (py_strip s))"
    using b by (simp add: py_strip_def last_rev)
  have "last ?b = last (rev ?a)" using b by (rule dropWhile_last)
  also have "\<dots> = hd ?a" using a by (simp add: last_rev)
  finally have "hd (py_strip s) = hd ?a" using b by (simp add: py_strip_def hd_rev)
  moreover have "\<not> py_isspace (hd ?a)" using a by (rule hd_dropWhile)
  ultimately show "\<not> py_isspace (hd (py_strip s))" by simp
qed

lemma strip_fixed:
  assumes "s \<noteq> []" "\<not> py_isspace (hd s)" "\<not> py_isspace (last s)"
  shows "py_strip s = s"
proof -
  have "dropWhile py_isspace s = s" using assms by (simp add: dropWhile_hd_id)
  moreover have "dropWhile py_isspace (rev s) = rev s"
    using assms by (simp add: dropWhile_hd_id hd_rev)
  ultimately show ?thesis by (simp add: py_strip_def)
qed

lemma py_strip_idem: "py_strip (py_strip s) = py_strip s"
proof (cases "py_strip s = []")
  case True
  show ?thesis unfolding True by (simp add: py_strip_def)
next
  case False
  show ?thesis using False strip_ends[OF False] by (intro strip_fixed)
qed

lemma set_py_strip: "set (py_strip s) \<subseteq> set s"
proof
  fix x
  assume "x \<in> set (py_strip s)"
  then have "x \<in> set (dropWhile py_isspace (rev (dropWhile py_isspace s)))"
    by (simp add: py_strip_def)
  then have "x \<in> set (rev (dropWhile py_isspace s))" by (rule set_dropWhileD)
  then have "x \<in> set (dropWhile py_isspace s)" by simp
  then show "x \<in> set s" by (rule set_dropWhileD)
qed

lemma startswith_set: "startswith s p \<Longrightarrow> set p \<subseteq> set s"
  by (induction s p rule: startswith.induct) auto

lemma py_remove_absent: "c \<in> set old \<Longrightarrow> c \<notin> set s \<Longrightarrow> py_remove old s = s"
proof (induction s)
  case Nil
  then show ?case by simp
next
  case (Cons a s)
  then have "\<not> startswith (a # s) old" using startswith_set by blast
  then show ?case using Cons by simp
qed

lemma split_first_absent: "c \<notin> set s \<Longrightarrow> split_first c s = s"
  by (auto simp: split_first_def takeWhile_eq_all_conv)

lemma split_first_free: "c \<notin> set (split_first c s)"
  unfolding split_first_def by (metis (mono_tags, lifting) set_takeWhileD)

lemma set_split_first: "set (split_first c s) \<subseteq> set s"
  unfolding split_first_def using set_takeWhileD by fastforce

lemma lower_free: "(of_char x :: nat) < 65 \<Longrightarrow> x \<notin> set s \<Longrightarrow> x \<notin> set (py_lower s)"
proof
  assume lo: "(of_char x :: nat) < 65" and nin: "x \<notin> set s" and "x \<in> set (py_lower s)"
  then obtain c where c: "c \<in> set s" "lower_chr c = x" by (auto simp: py_lower_def)
  then have "c = x" using lower_chr_eq_low[OF lo] by blast
  with c nin show False by simp
qed

lemma normalize_domain_shape:
  assumes "normalize_domain x \<noteq> []"
  shows "\<exists>z. normalize_domain x = py_strip (py_lower z) \<and> CHR ''/'' \<notin> set z \<and> CHR '':'' \<notin> set z"
    and "CHR ''.'' \<in> set (normalize_domain x)"
proof -
  let ?d2 = "split_first (CHR ''/'') (py_remove ''https://'' (py_remove ''http://'' x))"
  let ?d3 = "split_first (CHR '':'') ?d2"
  from assms have eq: "normalize_domain x = py_strip (py_lower ?d3)"
    by (auto simp: normalize_domain_def Let_def split: if_splits)
  have "CHR ''/'' \<notin> set ?d2" by (rule split_first_free)
  then have "CHR ''/'' \<notin> set ?d3" using set_split_first by blast
  moreover have "CHR '':'' \<notin> set ?d3" by (rule split_first_free)
  ultimately show "\<exists>z. normalize_domain x = py_strip (py_lower z) \<and> CHR ''/'' \<notin> set z \<and> CHR '':'' \<notin> set z"
    using eq by blast
  from assms show "CHR ''.'' \<in> set (normalize_domain x)"
    by (auto simp: normalize_domain_def Let_def split: if_splits)
qed

lemma normalize_domain_fixed:
  assumes "normalize_domain x \<noteq> []"
  shows "normalize_domain (normalize_domain x) = normalize_domain x"
proof -
  let ?y = "normalize_domain x"
  obtain z where y: "?y = py_strip (py_lower z)" and z: "CHR ''/'' \<notin> set z" "CHR '':'' \<notin> set z"
    using normalize_domain_shape(1)[OF assms] by blast
  have dot: "CHR ''.'' \<in> set ?y" by (rule normalize_domain_shape(2)[OF assms])
  have "CHR ''/'' \<notin> set (py_lower z)" "CHR '':'' \<notin> set (py_lower z)"
    using z by (simp_all add: lower_free)
  then have free: "CHR ''/'' \<notin> set ?y" "CHR '':'' \<notin> set ?y"
    using set_py_strip[of "py_lower z"] y by auto
  have r1: "py_remove ''http://'' ?y = ?y" using free by (intro py_remove_absent[of "CHR '':''"]) simp_all
  have r2: "py_remove ''https://'' ?y = ?y" using free by (intro py_remove_absent[of "CHR '':''"]) simp_all
  have s1: "split_first (CHR ''/'') ?y = ?y" "split_first (CHR '':'') ?y = ?y"
    using free by (simp_all add: split_first_absent)
  have "py_lower ?y = py_strip (py_lower (py_lower z))" by (simp add: y py_lower_strip)
  then have l: "py_lower ?y = ?y" by (simp add: py_lower_idem y)
  have st: "py_strip ?y = ?y" by (subst (1 2) y) (simp add: py_strip_idem)
  show ?thesis
    unfolding normalize_domain_def[of ?y] using assms dot by (simp add: r1 r2 s1 l st)
qed

section \<open>Properties of the whitelist store\<close>

lemma normalized_fixed_point:
  assumes "normalize_domain d = d" "d \<noteq> []"
  shows "py_strip d = d" and "py_lower d = d"
proof -
  have ne: "normalize_domain d \<noteq> []" using assms by simp
  obtain z where "normalize_domain d = py_strip (py_lower z)"
    using normalize_domain_shape(1)[OF ne] by blast
  then have d: "d = py_strip (py_lower z)" using assms by simp
  show "py_strip d = d" by (subst (1 2) d) (simp add: py_strip_idem)
  have "py_lower d = py_strip (py_lower (py_lower z))" by (subst d) (simp add: py_lower_strip)
  then show "py_lower d = d" using d by (simp add: py_lower_idem)
qed

lemma universal_newlines_id: "CR \<notin> set t \<Longrightarrow> universal_newlines t = t"
  by (induction t rule: universal_newlines.induct) auto

lemma file_lines_acc_line:
  "LF \<notin> set d \<Longrightarrow> file_lines_acc cur (d @ LF # rest) = (rev cur @ d @ [LF]) # file_lines_acc [] rest"
  by (induction d arbitrary: cur) auto

lemma file_lines_acc_concat:
  "\<forall>d\<in>set ds. LF \<notin> set d \<Longrightarrow>
   file_lines_acc [] (concat (map (\<lambda>d. d @ [LF]) ds)) = map (\<lambda>d. d @ [LF]) ds"
proof (induction ds)
  case Nil
  then show ?case by simp
next
  case (Cons d ds)
  then have "LF \<notin> set d" by simp
  from file_lines_acc_line[OF this, of "[]" "concat (map (\<lambda>d. d @ [LF]) ds)"] Cons
  show ?case by simp
qed

lemma py_strip_snoc_space:
  assumes "py_isspace c"
  shows "py_strip (d @ [c]) = py_strip d"
proof (cases "\<forall>x\<in>set d. py_isspace x")
  case True
  then have "dropWhile py_isspace (d @ [c]) = []" "dropWhile py_isspace d = []"
    using assms by (simp_all add: dropWhile_eq_Nil_conv)
  then show ?thesis by (simp only: py_strip_def)
next
  case False
  then have "dropWhile py_isspace (d @ [c]) = dropWhile py_isspace d @ [c]"
    by (metis dropWhile_append1)
  then show ?thesis using assms by (simp add: py_strip_def)
qed

lemma LF_isspace: "py_isspace LF"
  by (simp add: py_isspace_def LF_def)

lemma whitelist_text_lines:
  "whitelist_text S = concat (map (\<lambda>d. d @ [LF]) (header_lines @ sorted_list_of_set S))"
  by (simp add: whitelist_text_def whitelist_header_def header_lines_def)

lemma header_lines_free: "\<forall>d\<in>set header_lines. LF \<notin> set d \<and> CR \<notin> set d"
  by (simp add: header_lines_def LF_def CR_def)

lemma header_lines_skipped:
  "filter (\<lambda>line. line \<noteq> [] \<and> \<not> startswith line ''#'') (map py_strip header_lines) = []"
  by code_simp

lemma file_lines_whitelist_text:
  assumes "finite S" "\<forall>d\<in>S. LF \<notin> set d \<and> CR \<notin> set d"
  shows "file_lines (whitelist_text S) = map (\<lambda>d. d @ [LF]) (header_lines @ sorted_list_of_set S)"
proof -
  let ?ds = "header_lines @ sorted_list_of_set S"
  have free: "\<forall>d\<in>set ?ds. LF \<notin> set d \<and> CR \<notin> set d"
    using assms header_lines_free by auto
  then have "CR \<notin> set (concat (map (\<lambda>d. d @ [LF]) ?ds))"
    by (auto simp: LF_def CR_def)
  then have "universal_newlines (whitelist_text S) = whitelist_text S"
    unfolding whitelist_text_lines by (rule universal_newlines_id)
  moreover have "file_lines_acc [] (concat (map (\<lambda>d. d @ [LF]) ?ds)) = map (\<lambda>d. d @ [LF]) ?ds"
    using free by (intro file_lines_acc_concat) blast
  ultimately show ?thesis by (simp add: file_lines_def whitelist_text_lines)
qed

lemma load_after_save:
  assumes fin: "finite S" and rd: "readable s"
    and ok: "\<forall>d\<in>S. d \<noteq> [] \<and> py_strip d = d \<and> py_lower d = d \<and> \<not> startswith d ''#''
               \<and> LF \<notin> set d \<and> CR \<notin> set d"
  shows "load_whitelist (s\<lparr>whitelist_file := Some (whitelist_text S)\<rparr>) = S"
proof -
  let ?keep = "\<lambda>line. line \<noteq> [] \<and> \<not> startswith line ''#''"
  let ?ds = "sorted_list_of_set S"
  have fl: "file_lines (whitelist_text S) = map (\<lambda>d. d @ [LF]) (header_lines @ ?ds)"
    using fin ok by (intro file_lines_whitelist_text) auto
  have strip: "map py_strip (map (\<lambda>d. d @ [LF]) xs) = map py_strip xs" for xs
    by (simp add: py_strip_snoc_space LF_isspace)
  have dom: "\<forall>d\<in>set ?ds. ?keep d \<and> py_strip d = d \<and> py_lower d = d"
    using fin ok by auto
  then have "map py_strip ?ds = ?ds" by (simp add: map_idI)
  moreover have "filter ?keep ?ds = ?ds" using dom by (intro filter_True) blast
  moreover have "map py_lower ?ds = ?ds" using dom by (simp add: map_idI)
  ultimately have "map py_lower (filter ?keep (map py_strip (file_lines (whitelist_text S)))) = ?ds"
    unfolding fl strip by (simp add: header_lines_skipped)
  then show ?thesis using rd fin by (simp add: load_whitelist_def)
qed

section \<open>Properties of the dependency analyzer\<close>

lemma startswith_prefix: "startswith s p \<longleftrightarrow> prefix p s"
  by (induction s p rule: startswith.induct) auto

lemma startswith_trans: "startswith s p \<Longrightarrow> startswith p k \<Longrightarrow> startswith s k"
  unfolding startswith_prefix by (rule prefix_order.trans)

lemma py_in_shorter: "startswith p k \<Longrightarrow> py_in p s \<Longrightarrow> py_in k s"
proof (induction s)
  case Nil
  then show ?case by (cases k) auto
next
  case (Cons c cs)
  then show ?case using startswith_trans by auto
qed

lemma startswith_py_in: "startswith s p \<Longrightarrow> py_in p s"
  by (cases s) (auto elim: startswith.elims)

lemma cdn_patterns_keyword:
  "list_all (\<lambda>pattern. list_ex (\<lambda>keyword. startswith pattern keyword) essential_keywords) cdn_patterns"
  by code_simp

lemma is_cdn_essential:
  assumes "is_cdn dep"
  shows "is_essential dep"
proof -
  from assms obtain p where p: "p \<in> set cdn_patterns" "py_in p (py_lower dep)"
    by (auto simp: is_cdn_def list_ex_iff)
  with cdn_patterns_keyword obtain k where "k \<in> set essential_keywords" "startswith p k"
    by (auto simp: list_all_iff list_ex_iff)
  with p show ?thesis
    using py_in_shorter by (auto simp: is_essential_def list_ex_iff)
qed

lemma spec_essential_code:
  "spec_essential dep \<longleftrightarrow> is_essential dep \<or> is_cdn dep \<or> is_common_cdn dep"
proof -
  have pre: "list_ex (\<lambda>pattern. startswith (py_lower dep) pattern) cdn_patterns \<Longrightarrow> is_cdn dep"
    by (auto simp: is_cdn_def list_ex_iff dest: startswith_py_in)
  have com: "is_common_cdn dep \<longleftrightarrow>
      ((endswith dep ''.net'' \<or> endswith dep ''.io'')
          \<and> list_ex (\<lambda>cdn. py_in cdn (py_lower dep))
               [''cloudflare'', ''fastly'', ''amazon'', ''microsoft'', ''akamai''])"
    by (simp only: is_common_cdn_def common_cdns_def)
  show ?thesis
    unfolding spec_essential_def com[symmetric] is_essential_def[symmetric]
    using pre is_cdn_essential by blast
qed

lemma extract_domain_shape:
  assumes "extract_domain netloc_of url = Some m"
  shows "m \<noteq> [] \<and> py_lower m = m \<and> CHR '':'' \<notin> set m
       \<and> (\<exists>netloc. netloc_of url = Some netloc
            \<and> (let host = split_first (CHR '':'') (py_lower netloc)
                in m = (if startswith host ''www.'' then drop 4 host else host)))"
proof -
  from assms obtain netloc where n: "netloc_of url = Some netloc"
    by (auto simp: extract_domain_def split: option.splits)
  let ?l = "py_lower netloc"
  let ?host = "split_first (CHR '':'') ?l"
  have cut: "(if CHR '':'' \<in> set ?l then split_first (CHR '':'') ?l else ?l) = ?host"
    by (simp add: split_first_absent)
  from assms n have m: "m = (if startswith ?host ''www.'' then drop 4 ?host else ?host)" and "m \<noteq> []"
    by (auto simp: extract_domain_def Let_def cut split: if_splits)
  have "py_lower ?host = ?host"
    by (simp add: split_first_def py_lower_def lower_chr_idem takeWhile_map map_idI)
  then have lo: "py_lower m = m"
    unfolding m by (auto simp: py_lower_def drop_map[symmetric])
  have "CHR '':'' \<notin> set ?host" by (rule split_first_free)
  then have "CHR '':'' \<notin> set m" unfolding m by (auto dest: in_set_dropD)
  with lo m n \<open>m \<noteq> []\<close> show ?thesis by (auto simp: Let_def)
qed

lemma collect_dependencies_member:
  assumes "m \<in> collect_dependencies netloc_of domain entries acc"
  shows "m \<in> acc \<or> (m \<noteq> domain \<and> (\<exists>url. Some url \<in> set entries \<and> extract_domain netloc_of url = Some m))"
  using assms
proof (induction netloc_of domain entries acc rule: collect_dependencies.induct)
  case (3 netloc_of domain req_url entries dependencies)
  then show ?case by (auto split: option.splits if_splits)
qed auto

section \<open>Properties of the dependency cache\<close>

lemma dom_build_fold:
  "dom (fold (\<lambda>domain dependency_cache.
             dependency_cache(domain \<mapsto> f domain)) whitelist c) = dom c \<union> set whitelist"
  by (induction whitelist arbitrary: c) auto

lemma dom_build_dependency_cache: "dom (build_dependency_cache analyze whitelist) = set whitelist"
  by (simp add: build_dependency_cache_def dom_build_fold)

lemma build_dependency_cache_last:
  "domain \<in> set whitelist \<Longrightarrow>
   fold (\<lambda>domain dependency_cache. dependency_cache(domain \<mapsto> f domain)) whitelist c domain
     = Some (f domain)"
  by (induction whitelist arbitrary: c rule: rev_induct) auto

lemma keep_fold:
  "fold (\<lambda>site cache. if cache site \<noteq> None \<and> True then cache else cache(site \<mapsto> f site)) sites c d
    = (case c d of Some v \<Rightarrow> Some v | None \<Rightarrow> if d \<in> set sites then Some (f d) else None)"
  by (induction sites arbitrary: c) (auto split: option.splits)


lemma finite_load_whitelist: "finite (load_whitelist s)"
  by (simp add: load_whitelist_def split: option.splits)

lemma set_list_domains: "set (list_domains s) = load_whitelist s"
  by (simp add: list_domains_def finite_load_whitelist)


section \<open>Properties of the network restrictor\<close>


lemma str_nat_digits: "str_nat n \<noteq> [] \<and> set (str_nat n) \<subseteq> set ''0123456789''"
proof (induction n rule: str_nat.induct)
  case (1 n)
  have d: "''0123456789'' ! k \<in> set ''0123456789''" if "k < 10" for k
    using that by (intro nth_mem) simp
  show ?case
  proof (cases "n < 10")
    case True
    then show ?thesis using d[of n] by (subst (1 2) str_nat.simps) simp
  next
    case False
    then show ?thesis
      using 1 d[of "n mod 10"] by (subst (1 2) str_nat.simps) simp
  qed
qed

lemma str_nat_not_option: "str_nat n \<noteq> ''-j''"
proof
  assume "str_nat n = ''-j''"
  then have "CHR ''-'' \<in> set (str_nat n)" by simp
  then show False using str_nat_digits[of n] by auto
qed

lemma chain_names:
  "chain_in (NetworkRestrictor usr uid) \<noteq> chain_out (NetworkRestrictor usr uid)"
  "chain_out (NetworkRestrictor usr uid) \<noteq> chain_in (NetworkRestrictor usr uid)"
  "chain_in (NetworkRestrictor usr uid) \<noteq> ''INPUT''"
  "chain_in (NetworkRestrictor usr uid) \<noteq> ''FORWARD''"
  "chain_in (NetworkRestrictor usr uid) \<noteq> ''OUTPUT''"
  "chain_out (NetworkRestrictor usr uid) \<noteq> ''INPUT''"
  "chain_out (NetworkRestrictor usr uid) \<noteq> ''FORWARD''"
  "chain_out (NetworkRestrictor usr uid) \<noteq> ''OUTPUT''"
  "''INPUT'' \<noteq> chain_in (NetworkRestrictor usr uid)"
  "''FORWARD'' \<noteq> chain_in (NetworkRestrictor usr uid)"
  "''OUTPUT'' \<noteq> chain_in (NetworkRestrictor usr uid)"
  "''INPUT'' \<noteq> chain_out (NetworkRestrictor usr uid)"
  "''FORWARD'' \<noteq> chain_out (NetworkRestrictor usr uid)"
  "''OUTPUT'' \<noteq> chain_out (NetworkRestrictor usr uid)"
  by (simp_all add: NetworkRestrictor_def)

lemma resolve_queries_none:
  assumes "\<forall>(name, rr) \<in> set queries. res name rr = Answer [] \<or> res name rr = DNSException"
  shows "resolve_queries res queries ips = ips"
  using assms by (induction queries arbitrary: ips) auto

lemma resolve_example:
  assumes "res ''example.com'' A = Answer [''93.184.216.34'']"
    and "\<forall>name rr. name \<noteq> ''example.com'' \<or> rr \<noteq> A \<longrightarrow> res name rr = Answer [] \<or> res name rr = DNSException"
  shows "resolve_domain_ips res ''example.com'' = [''93.184.216.34'']"
proof -
  let ?rest = "[(''example.com'', AAAA),
     (''www.example.com'', A), (''www.example.com'', AAAA),
     (''api.example.com'', A), (''api.example.com'', AAAA),
     (''cdn.example.com'', A), (''cdn.example.com'', AAAA),
     (''static.example.com'', A), (''static.example.com'', AAAA),
     (''assets.example.com'', A), (''assets.example.com'', AAAA)]"
  have "\<forall>(name, rr) \<in> set ?rest. res name rr = Answer [] \<or> res name rr = DNSException"
    using assms(2) by simp
  then have rest: "resolve_queries res ?rest [''93.184.216.34''] = [''93.184.216.34'']"
    by (rule resolve_queries_none)
  have "resolve_domain_ips res ''example.com'' = resolve_queries res ((''example.com'', A) # ?rest) []"
    by (simp add: resolve_domain_ips_def del: resolve_queries.simps)
  also have "\<dots> = resolve_queries res ?rest [''93.184.216.34'']"
    using assms(1) by (simp del: resolve_queries.simps add: resolve_queries.simps(2)[of res "''example.com''" A])
  finally show ?thesis using rest by simp
qed

lemma resolve_other:
  assumes "\<forall>name rr. name \<noteq> ''example.com'' \<or> rr \<noteq> A \<longrightarrow> res name rr = Answer [] \<or> res name rr = DNSException"
    and "domain \<noteq> ''example.com''"
  shows "resolve_domain_ips res domain = []"
  unfolding resolve_domain_ips_def
  using assms by (intro resolve_queries_none) auto

lemma add_domain_rules_none:
  "\<forall>domain \<in> set domains. resolve_domain_ips res domain = [] \<Longrightarrow>
   add_domain_rules r res valid_ipv6 domains fw = fw"
  by (induction domains arbitrary: fw) auto

lemma essential_cdns_other: "''example.com'' \<notin> set essential_cdns"
  by code_simp

lemma add_essential_cdns_none:
  assumes "\<forall>name rr. name \<noteq> ''example.com'' \<or> rr \<noteq> A \<longrightarrow> res name rr = Answer [] \<or> res name rr = DNSException"
  shows "add_essential_cdns r res valid_ipv6 fw = fw"
  unfolding add_essential_cdns_def
proof (rule add_domain_rules_none, rule ballI)
  fix domain assume "domain \<in> set (remdups essential_cdns)"
  then have "domain \<noteq> ''example.com''" using essential_cdns_other by auto
  then show "resolve_domain_ips res domain = []" using assms by (intro resolve_other)
qed

lemma is_ipv4_example: "is_ipv4 ''93.184.216.34''"
  by code_simp


lemmas fw_defs = run_command_def target_ok_def referenced_def builtin_targets_def
  builtin_chains_def owner_jump_def

lemma clear_fresh:
  "clear_existing_rules (NetworkRestrictor usr uid) fresh_firewall = (None, fresh_firewall)"
  by (simp add: clear_existing_rules_def fw_defs fresh_firewall_def fresh_table_def chain_names)

lemma create_fresh:
  "create_chains (NetworkRestrictor usr uid) fresh_firewall =
     (None, \<lparr>ipv4 = created_table (NetworkRestrictor usr uid) [] [],
             ipv6 = created_table (NetworkRestrictor usr uid) [] []\<rparr>)"
  by (simp add: create_chains_def fw_defs fresh_firewall_def fresh_table_def chain_names
      created_table_def)

lemma append_rule4:
  "r = NetworkRestrictor usr uid \<Longrightarrow> jump_target spec = Some ''ACCEPT'' \<or> jump_target spec = Some ''REJECT'' \<Longrightarrow>
   run_command (''iptables'' # ''-A'' # chain_out r # spec) check
       \<lparr>ipv4 = created_table r out rules, ipv6 = t6\<rparr>
     = (None, \<lparr>ipv4 = created_table r out (rules @ [spec]), ipv6 = t6\<rparr>)"
  by (auto simp add: fw_defs chain_names created_table_def)

lemma append_rule6:
  "r = NetworkRestrictor usr uid \<Longrightarrow> jump_target spec = Some ''ACCEPT'' \<or> jump_target spec = Some ''REJECT'' \<Longrightarrow>
   run_command (''ip6tables'' # ''-A'' # chain_out r # spec) check
       \<lparr>ipv4 = t4, ipv6 = created_table r out rules\<rparr>
     = (None, \<lparr>ipv4 = t4, ipv6 = created_table r out (rules @ [spec])\<rparr>)"
  by (auto simp add: fw_defs chain_names created_table_def)

lemma append_jump4:
  "r = NetworkRestrictor usr uid \<Longrightarrow>
   run_command (''iptables'' # ''-A'' # ''OUTPUT'' # owner_jump r) check
       \<lparr>ipv4 = created_table r out rules, ipv6 = t6\<rparr>
     = (None, \<lparr>ipv4 = created_table r (out @ [owner_jump r]) rules, ipv6 = t6\<rparr>)"
  by (simp add: fw_defs chain_names created_table_def str_nat_not_option)

lemma append_jump6:
  "r = NetworkRestrictor usr uid \<Longrightarrow>
   run_command (''ip6tables'' # ''-A'' # ''OUTPUT'' # owner_jump r) check
       \<lparr>ipv4 = t4, ipv6 = created_table r out rules\<rparr>
     = (None, \<lparr>ipv4 = t4, ipv6 = created_table r (out @ [owner_jump r]) rules\<rparr>)"
  by (simp add: fw_defs chain_names created_table_def str_nat_not_option)

lemma setup_default_created:
  "r = NetworkRestrictor usr uid \<Longrightarrow>
   setup_default_rules r \<lparr>ipv4 = created_table r out4 rules4, ipv6 = created_table r out6 rules6\<rparr>
   = (None,
      \<lparr>ipv4 = created_table r out4 (rules4 @
          [[''-m'', ''state'', ''--state'', ''ESTABLISHED,RELATED'', ''-j'', ''ACCEPT''],
           [''-d'', ''127.0.0.0/8'', ''-j'', ''ACCEPT''],
           [''-p'', ''udp'', ''--dport'', ''53'', ''-j'', ''ACCEPT''],
           [''-p'', ''tcp'', ''--dport'', ''53'', ''-j'', ''ACCEPT'']]),
        ipv6 = created_table r out6 (rules6 @
          [[''-m'', ''state'', ''--state'', ''ESTABLISHED,RELATED'', ''-j'', ''ACCEPT''],
           [''-d'', ''::1/128'', ''-j'', ''ACCEPT''],
           [''-p'', ''udp'', ''--dport'', ''53'', ''-j'', ''ACCEPT''],
           [''-p'', ''tcp'', ''--dport'', ''53'', ''-j'', ''ACCEPT'']])\<rparr>)"
  by (simp add: setup_default_rules_def append_rule4 append_rule6)

lemma finalize_created:
  "r = NetworkRestrictor usr uid \<Longrightarrow>
   finalize_rules r \<lparr>ipv4 = created_table r out4 rules4, ipv6 = created_table r out6 rules6\<rparr>
   = (None,
      \<lparr>ipv4 = created_table r (out4 @ [owner_jump r])
               (rules4 @ [[''-j'', ''REJECT'', ''--reject-with'', ''icmp-host-unreachable'']]),
        ipv6 = created_table r (out6 @ [owner_jump r])
               (rules6 @ [[''-j'', ''REJECT'', ''--reject-with'', ''icmp6-adm-prohibited'']])\<rparr>)"
  by (simp add: finalize_rules_def append_rule4 append_rule6 append_jump4 append_jump6)

lemma add_example_rule:
  assumes "r = NetworkRestrictor usr uid"
    and "res ''example.com'' A = Answer [''93.184.216.34'']"
    and "\<forall>name rr. name \<noteq> ''example.com'' \<or> rr \<noteq> A \<longrightarrow> res name rr = Answer [] \<or> res name rr = DNSException"
  shows "add_domain_rules r res valid_ipv6 [''example.com'']
           \<lparr>ipv4 = created_table r out rules, ipv6 = t6\<rparr>
         = \<lparr>ipv4 = created_table r out (rules @ [[''-d'', ''93.184.216.34'', ''-j'', ''ACCEPT'']]), ipv6 = t6\<rparr>"
  using assms(1)
  by (simp add: resolve_example[OF assms(2,3)] ip_version_def is_ipv4_example append_rule4)


lemma apply_fresh:
  assumes "res ''example.com'' A = Answer [''93.184.216.34'']"
    and "\<forall>name rr. name \<noteq> ''example.com'' \<or> rr \<noteq> A \<longrightarrow> res name rr = Answer [] \<or> res name rr = DNSException"
    and r: "r = NetworkRestrictor usr uid"
  shows "apply_restrictions r res valid_ipv6 [''example.com''] [] fresh_firewall =
     (None,
      \<lparr>ipv4 = created_table r [owner_jump r]
          [[''-m'', ''state'', ''--state'', ''ESTABLISHED,RELATED'', ''-j'', ''ACCEPT''],
           [''-d'', ''127.0.0.0/8'', ''-j'', ''ACCEPT''],
           [''-p'', ''udp'', ''--dport'', ''53'', ''-j'', ''ACCEPT''],
           [''-p'', ''tcp'', ''--dport'', ''53'', ''-j'', ''ACCEPT''],
           [''-d'', ''93.184.216.34'', ''-j'', ''ACCEPT''],
           [''-j'', ''REJECT'', ''--reject-with'', ''icmp-host-unreachable'']],
        ipv6 = created_table r [owner_jump r]
          [[''-m'', ''state'', ''--state'', ''ESTABLISHED,RELATED'', ''-j'', ''ACCEPT''],
           [''-d'', ''::1/128'', ''-j'', ''ACCEPT''],
           [''-p'', ''udp'', ''--dport'', ''53'', ''-j'', ''ACCEPT''],
           [''-p'', ''tcp'', ''--dport'', ''53'', ''-j'', ''ACCEPT''],
           [''-j'', ''REJECT'', ''--reject-with'', ''icmp6-adm-prohibited'']]\<rparr>)"
proof -
  note ex = add_example_rule[OF r assms(1,2)]
  note cdn = add_essential_cdns_none[OF assms(2)]
  show ?thesis
    unfolding apply_restrictions_def r
    using ex[unfolded r] finalize_created[OF refl, of usr uid] setup_default_created[OF refl, of usr uid]
    by (simp add: clear_fresh create_fresh cdn)
qed

lemma map_of_created_out:
  "map_of (created_table (NetworkRestrictor usr uid) out rules) (chain_out (NetworkRestrictor usr uid)) = Some rules"
  "map_of (created_table (NetworkRestrictor usr uid) out rules) ''OUTPUT'' = Some out"
  by (simp_all add: created_table_def chain_names)


section \<open>Claims about the domain normalizer\<close>

text \<open>
  Claim C7. Domain normalization is idempotent: for every input string \<open>x\<close>, normalizing
  the result of \<open>_normalize_domain\<close> once more gives the same string. This covers the
  rejected inputs too, whose result is the empty string.
\<close>

theorem normalize_domain_idempotent:
  "normalize_domain (normalize_domain x) = normalize_domain x"
proof (cases "normalize_domain x = []")
  case True
  then show ?thesis by (simp add: normalize_domain_def)
next
  case False
  then show ?thesis by (rule normalize_domain_fixed)
qed

section \<open>Claims about the whitelist commands\<close>

text \<open>
  Claim C9. A malformed domain argument, one that \<open>_normalize_domain\<close> turns into the empty
  string, makes both \<open>add_domain\<close> and \<open>remove_domain\<close> print the error
  "Invalid domain format" and return \<open>False\<close> before the whitelist is read or written:
  the files are the same afterwards. The \<open>add\<close> and \<open>remove\<close> commands then exit with
  code 1; without root they exit with code 1 even earlier, again without touching a file.
\<close>

theorem malformed_domain_rejected:
  assumes "normalize_domain d = []"
  shows "add_domain s d = (False, [Error ''Invalid domain format''], s)
       \<and> remove_domain s d = (False, [Error ''Invalid domain format''], s)
       \<and> main True s (Add d) = (1, [Error ''Invalid domain format''], s)
       \<and> main True s (Remove d) = (1, [Error ''Invalid domain format''], s)
       \<and> main False s (Add d) = (1, [Error ''This command must be run as root''], s)
       \<and> main False s (Remove d) = (1, [Error ''This command must be run as root''], s)"
  using assms by (simp add: add_domain_def remove_domain_def main_def)

theorem malformed_domain_rejected_witness:
  "normalize_domain ''localhost'' = []
   \<and> main True \<lparr>whitelist_file = Some ''example.com'', readable = True, writable = True\<rparr>
        (Add ''localhost'')
     = (1, [Error ''Invalid domain format''],
        \<lparr>whitelist_file = Some ''example.com'', readable = True, writable = True\<rparr>)"
proof -
  have h: "normalize_domain ''localhost'' = []" by code_simp
  show ?thesis
    using h malformed_domain_rejected[OF h,
        of "\<lparr>whitelist_file = Some ''example.com'', readable = True, writable = True\<rparr>"]
    by simp
qed

text \<open>
  Claim C3 says that every \<open>add\<close> of a decorated spelling of a host succeeds, and gives
  \<open>add("HTTP://Example.com/path")\<close> as an example. The normalizer removes the scheme
  before it lowercases, and \<open>str.replace\<close> is case sensitive, so a capitalised scheme is
  not removed: the text is cut at the first \<open>/\<close> and at the \<open>:\<close>, leaving \<open>http\<close>, which
  has no dot. The call prints "Invalid domain format", returns \<open>False\<close> and leaves the
  whitelist alone, whatever the files hold. With the scheme in small letters the same
  argument normalizes to \<open>example.com\<close>.
\<close>

theorem add_domain_uppercase_scheme:
  "add_domain s ''HTTP://Example.com/path'' = (False, [Error ''Invalid domain format''], s)
   \<and> normalize_domain ''http://Example.com/path'' = ''example.com''"
proof -
  have "normalize_domain ''HTTP://Example.com/path'' = []" by code_simp
  moreover have "normalize_domain ''http://Example.com/path'' = ''example.com''" by code_simp
  ultimately show ?thesis by (simp add: add_domain_def)
qed

text \<open>
  Claim C6, as stated, fails: a domain that is lowercase, has a dot, does not start with
  \<open>#\<close> and is returned unchanged by the normalizer may still hold a line break in its
  middle. \<open>save_whitelist\<close> writes it as it is and \<open>load_whitelist\<close> reads two lines back.
\<close>

theorem whitelist_roundtrip_counterexample:
  "py_lower ''a.b\<newline>c.d'' = ''a.b\<newline>c.d'' \<and> CHR ''.'' \<in> set ''a.b\<newline>c.d''
   \<and> \<not> startswith ''a.b\<newline>c.d'' ''#''
   \<and> normalize_domain ''a.b\<newline>c.d'' = ''a.b\<newline>c.d''
   \<and> load_whitelist (snd (save_whitelist
         \<lparr>whitelist_file = None, readable = True, writable = True\<rparr> {''a.b\<newline>c.d''}))
       = {''a.b'', ''c.d''}
   \<and> load_whitelist (snd (save_whitelist
         \<lparr>whitelist_file = None, readable = True, writable = True\<rparr> {''a.b\<newline>c.d''}))
       \<noteq> {''a.b\<newline>c.d''}"
  by code_simp

text \<open>
  Claim C6, amended. For every collection of normalized domains (fixed points of the
  normalizer, which are non-empty, lowercase, trimmed and hold a dot), none starting with
  \<open>#\<close> and none holding a line feed or carriage return, saving the set and loading the
  file gives back exactly that set, provided the file can be written and read. The set is
  given by the list \<open>xs\<close> of its insertions: the file depends on \<open>set xs\<close> only, its body
  being the sorted, duplicate-free list of the domains, one per line after the header.
\<close>

theorem whitelist_roundtrip:
  assumes "readable s" "writable s"
    and "\<forall>d\<in>set xs. d \<noteq> [] \<and> normalize_domain d = d \<and> \<not> startswith d ''#''
               \<and> LF \<notin> set d \<and> CR \<notin> set d"
  shows "fst (save_whitelist s (set xs))
       \<and> load_whitelist (snd (save_whitelist s (set xs))) = set xs
       \<and> whitelist_file (snd (save_whitelist s (set xs)))
           = Some (whitelist_header @ concat (map (\<lambda>d. d @ [LF]) (sort (remdups xs))))"
proof -
  have "\<forall>d\<in>set xs. d \<noteq> [] \<and> py_strip d = d \<and> py_lower d = d \<and> \<not> startswith d ''#''
               \<and> LF \<notin> set d \<and> CR \<notin> set d"
    using assms(3) normalized_fixed_point by blast
  then have "load_whitelist (s\<lparr>whitelist_file := Some (whitelist_text (set xs))\<rparr>) = set xs"
    using assms(1) by (intro load_after_save) simp_all
  then show ?thesis
    using assms(2) by (simp add: save_whitelist_def whitelist_text_def sorted_list_of_set_sort_remdups)
qed

theorem whitelist_roundtrip_witness:
  "normalize_domain ''codeforces.com'' = ''codeforces.com''
   \<and> normalize_domain ''atcoder.jp'' = ''atcoder.jp''
   \<and> load_whitelist (snd (save_whitelist
       \<lparr>whitelist_file = None, readable = True, writable = True\<rparr>
       (set [''codeforces.com'', ''atcoder.jp''])))
     = set [''codeforces.com'', ''atcoder.jp'']
   \<and> whitelist_file (snd (save_whitelist
       \<lparr>whitelist_file = None, readable = True, writable = True\<rparr>
       (set [''codeforces.com'', ''atcoder.jp''])))
     = Some (whitelist_header @ ''atcoder.jp'' @ [LF] @ ''codeforces.com'' @ [LF])"
proof -
  have h: "\<forall>d\<in>set [''codeforces.com'', ''atcoder.jp''].
             d \<noteq> [] \<and> normalize_domain d = d \<and> \<not> startswith d ''#''
               \<and> LF \<notin> set d \<and> CR \<notin> set d"
    by code_simp
  have srt: "sort (remdups [''codeforces.com'', ''atcoder.jp'']) = [''atcoder.jp'', ''codeforces.com'']"
    by code_simp
  have n: "normalize_domain ''codeforces.com'' = ''codeforces.com''"
    "normalize_domain ''atcoder.jp'' = ''atcoder.jp''"
    by code_simp+
  show ?thesis
    using n whitelist_roundtrip[OF _ _ h,
        of "\<lparr>whitelist_file = None, readable = True, writable = True\<rparr>"]
    by (simp add: srt)
qed

section \<open>Claims about the dependency analyzer\<close>

text \<open>
  Claim C4. A host that contains a blocked keyword is never in the set that
  \<open>filter_dependencies\<close> returns, whatever else it contains: the blocked test comes first
  and leaves the iteration, so a host with both \<open>facebook\<close> and \<open>cdn\<close> in it is
  excluded. The same holds for the set \<open>analyze_domain\<close> returns, which is filtered.
\<close>

theorem blocked_host_excluded:
  assumes "list_ex (\<lambda>keyword. py_in keyword (py_lower host)) blocked_keywords"
  shows "host \<notin> filter_dependencies deps \<and> host \<notin> analyze_domain netloc_of domain har"
  using assms by (simp add: analyze_domain_def filter_dependencies_def keep_dependency_def is_blocked_def)

theorem blocked_host_excluded_witness:
  "py_in ''facebook'' ''cdn.facebook.net'' \<and> py_in ''cdn'' ''cdn.facebook.net''
   \<and> is_essential ''cdn.facebook.net''
   \<and> ''cdn.facebook.net'' \<notin> filter_dependencies {''cdn.facebook.net'', ''cdn.jsdelivr.net''}
   \<and> ''cdn.jsdelivr.net'' \<in> filter_dependencies {''cdn.facebook.net'', ''cdn.jsdelivr.net''}"
proof -
  have h: "list_ex (\<lambda>keyword. py_in keyword (py_lower ''cdn.facebook.net'')) blocked_keywords"
    by code_simp
  have e: "py_in ''facebook'' ''cdn.facebook.net''" "py_in ''cdn'' ''cdn.facebook.net''"
    "is_essential ''cdn.facebook.net''"
    "''cdn.jsdelivr.net'' \<in> filter_dependencies {''cdn.facebook.net'', ''cdn.jsdelivr.net''}"
    by code_simp+
  show ?thesis
    using e blocked_host_excluded[OF h, of "{''cdn.facebook.net'', ''cdn.jsdelivr.net''}"]
    by simp
qed

text \<open>
  Claim C8. A crawled host that contains no blocked keyword is kept as essential exactly
  when it contains an essential keyword, or starts with one of the CDN-path patterns, or
  ends in \<open>.net\<close> or \<open>.io\<close> and contains the name of a big CDN; every other host is
  dropped. The code looks for the patterns anywhere in the host, not only at its start;
  the two readings select the same hosts, since every pattern contains an essential
  keyword.
\<close>

theorem unblocked_host_classification:
  assumes "\<not> list_ex (\<lambda>keyword. py_in keyword (py_lower host)) blocked_keywords"
  shows "(host \<in> filter_dependencies crawled \<longleftrightarrow> host \<in> crawled \<and> spec_essential host)
       \<and> (spec_essential host \<longleftrightarrow> is_essential host \<or> is_cdn host \<or> is_common_cdn host)"
  using assms
  by (simp add: filter_dependencies_def keep_dependency_def is_blocked_def spec_essential_code)

theorem unblocked_host_classification_witness:
  "\<not> is_blocked ''static.example.com'' \<and> \<not> is_blocked ''edge.akamai.net''
   \<and> \<not> is_blocked ''example.org''
   \<and> filter_dependencies {''static.example.com'', ''edge.akamai.net'', ''example.org''}
       = {''static.example.com'', ''edge.akamai.net''}
   \<and> spec_essential ''static.example.com'' \<and> spec_essential ''edge.akamai.net''
   \<and> \<not> spec_essential ''example.org''"
proof -
  have h: "\<not> list_ex (\<lambda>keyword. py_in keyword (py_lower ''example.org'')) blocked_keywords"
    by code_simp
  have e: "\<not> is_blocked ''static.example.com''" "\<not> is_blocked ''edge.akamai.net''"
    "\<not> is_blocked ''example.org''"
    "filter_dependencies {''static.example.com'', ''edge.akamai.net'', ''example.org''}
       = {''static.example.com'', ''edge.akamai.net''}"
    "spec_essential ''static.example.com''" "spec_essential ''edge.akamai.net''"
    by code_simp+
  have "\<not> spec_essential ''example.org''"
    using unblocked_host_classification[OF h,
        of "{''static.example.com'', ''edge.akamai.net'', ''example.org''}"] e(4)
    by auto
  with e show ?thesis by simp
qed

text \<open>
  Claim C10, as stated, fails in its last part: \<open>extract_domain\<close> removes one leading
  \<open>www.\<close>, so a request to \<open>www.www.cdn.example.org\<close> is reported as
  \<open>www.cdn.example.org\<close>, which still starts with \<open>www.\<close>.
\<close>

theorem analyze_domain_www_counterexample:
  "url_netloc ''https://www.www.cdn.example.org/lib.js'' = Some ''www.www.cdn.example.org''
   \<and> analyze_domain url_netloc ''example.com''
        (Some [Some ''https://www.www.cdn.example.org/lib.js'']) = {''www.cdn.example.org''}
   \<and> startswith ''www.cdn.example.org'' ''www.''"
  by code_simp

text \<open>
  Claim C10, amended. The set \<open>analyze_domain\<close> returns for a domain never contains that
  domain, and every member comes from the netloc of a request URL of the page by
  lowercasing it, cutting it at its first \<open>:\<close> and removing one leading \<open>www.\<close>: the
  member is non-empty, has no capital letter and no \<open>:\<close>. This holds for whatever
  \<open>urlparse\<close> returns as the netloc.
\<close>

theorem analyze_domain_members:
  "domain \<notin> analyze_domain netloc_of domain har
   \<and> (\<forall>m \<in> analyze_domain netloc_of domain har.
        m \<noteq> [] \<and> py_lower m = m \<and> CHR '':'' \<notin> set m
        \<and> (\<exists>entries url netloc. har = Some entries \<and> Some url \<in> set entries
              \<and> netloc_of url = Some netloc
              \<and> (let host = split_first (CHR '':'') (py_lower netloc)
                  in m = (if startswith host ''www.'' then drop 4 host else host))))"
proof -
  have mem: "m \<noteq> domain \<and> (\<exists>entries url. har = Some entries \<and> Some url \<in> set entries
                 \<and> extract_domain netloc_of url = Some m)"
    if "m \<in> analyze_domain netloc_of domain har" for m
  proof -
    from that obtain entries where h: "har = Some entries"
      and "m \<in> collect_dependencies netloc_of domain entries {}"
      by (auto simp: analyze_domain_def filter_dependencies_def split: option.splits)
    then show ?thesis using collect_dependencies_member by fastforce
  qed
  have "domain \<notin> analyze_domain netloc_of domain har" using mem by blast
  moreover have "m \<noteq> [] \<and> py_lower m = m \<and> CHR '':'' \<notin> set m
        \<and> (\<exists>entries url netloc. har = Some entries \<and> Some url \<in> set entries
              \<and> netloc_of url = Some netloc
              \<and> (let host = split_first (CHR '':'') (py_lower netloc)
                  in m = (if startswith host ''www.'' then drop 4 host else host)))"
    if "m \<in> analyze_domain netloc_of domain har" for m
  proof -
    from mem[OF that] obtain entries url where h: "har = Some entries" "Some url \<in> set entries"
      and e: "extract_domain netloc_of url = Some m" by blast
    from extract_domain_shape[OF e] h show ?thesis by blast
  qed
  ultimately show ?thesis by blast
qed

theorem analyze_domain_members_witness:
  "analyze_domain url_netloc ''example.com''
     (Some [Some ''https://WWW.CDN.Example.org:8080/lib.js'', Some ''https://www.example.com/a.css''])
     = {''cdn.example.org''}
   \<and> ''example.com'' \<notin> analyze_domain url_netloc ''example.com''
     (Some [Some ''https://WWW.CDN.Example.org:8080/lib.js'', Some ''https://www.example.com/a.css''])
   \<and> py_lower ''cdn.example.org'' = ''cdn.example.org'' \<and> CHR '':'' \<notin> set ''cdn.example.org''"
proof -
  have h: "analyze_domain url_netloc ''example.com''
     (Some [Some ''https://WWW.CDN.Example.org:8080/lib.js'', Some ''https://www.example.com/a.css''])
     = {''cdn.example.org''}"
    by code_simp
  show ?thesis
    using h analyze_domain_members[of "''example.com''" url_netloc
      "Some [Some ''https://WWW.CDN.Example.org:8080/lib.js'', Some ''https://www.example.com/a.css'']"]
    by simp
qed

section \<open>Claims about the dependency cache\<close>

text \<open>
  Claim C5, as stated, fails: a restrict run of the manager starts from an empty
  dictionary and writes one entry per domain of the current whitelist over the cache file.
  The entry of a domain that has left the whitelist is gone after the run.
\<close>

theorem cache_entry_dropped_counterexample:
  "load_dependencies (Some [''old.com'' \<mapsto> [''fonts.gstatic.com'']]) ''old.com''
     = Some [''fonts.gstatic.com'']
   \<and> list_domains \<lparr>whitelist_file = Some ''example.com\<newline>'', readable = True, writable = True\<rparr>
     = [''example.com'']
   \<and> load_dependencies (snd (manager_apply_restrictions True True True analyze_fonts
        \<lparr>whitelist_file = Some ''example.com\<newline>'', readable = True, writable = True\<rparr>
        (Some [''old.com'' \<mapsto> [''fonts.gstatic.com'']]))) ''old.com'' = None
   \<and> load_dependencies (snd (manager_apply_restrictions True True True analyze_fonts
        \<lparr>whitelist_file = Some ''example.com\<newline>'', readable = True, writable = True\<rparr>
        (Some [''old.com'' \<mapsto> [''fonts.gstatic.com'']]))) ''example.com''
     = Some [''fonts.gstatic.com'']"
  by code_simp

text \<open>
  Claim C5, amended. A restrict run of the manager that reaches the cache step rewrites
  the cache file from the current whitelist: afterwards the file holds exactly one entry
  per whitelisted domain, with the dependencies just analyzed (the empty list where the
  analysis raised); a run that fails earlier, or cannot write, leaves the cache file as it
  was. The manager has no \<open>force_refresh\<close> flag. In \<open>analyze_dependencies\<close> of
  \<open>scripts/restrict.py\<close> the flag decides whether the cached results are bypassed:
  without it every entry of the file is kept as it is and only the sites without an entry
  are analyzed; with it the cache is rebuilt from the whitelisted sites alone.
\<close>

theorem restrict_run_rebuilds_cache:
  "(network_ok \<and> usb_ok \<and> cache_ok \<longrightarrow>
      dom (load_dependencies (snd (manager_apply_restrictions network_ok usb_ok cache_ok analyze s cache_file)))
        = load_whitelist s
      \<and> (\<forall>domain \<in> load_whitelist s.
           load_dependencies (snd (manager_apply_restrictions network_ok usb_ok cache_ok analyze s cache_file)) domain
             = Some (case analyze domain of Some deps \<Rightarrow> deps | None \<Rightarrow> [])))
   \<and> (\<not> (network_ok \<and> usb_ok \<and> cache_ok) \<longrightarrow>
        snd (manager_apply_restrictions network_ok usb_ok cache_ok analyze s cache_file) = cache_file)
   \<and> load_dependency_cache (analyze_dependencies False True analyze sites cache_file) domain
        = (case load_dependency_cache cache_file domain of
             Some deps \<Rightarrow> Some deps
           | None \<Rightarrow> if domain \<in> set sites
                     then Some (case analyze domain of Some deps \<Rightarrow> deps | None \<Rightarrow> []) else None)
   \<and> load_dependency_cache (analyze_dependencies True True analyze sites cache_file) domain
        = (if domain \<in> set sites
           then Some (case analyze domain of Some deps \<Rightarrow> deps | None \<Rightarrow> []) else None)"
proof -
  let ?f = "\<lambda>domain. case analyze domain of Some deps \<Rightarrow> deps | None \<Rightarrow> []"
  have a: "dom (build_dependency_cache analyze (list_domains s)) = load_whitelist s"
    by (simp add: dom_build_dependency_cache set_list_domains)
  have b: "\<forall>domain \<in> load_whitelist s.
      build_dependency_cache analyze (list_domains s) domain = Some (?f domain)"
    unfolding build_dependency_cache_def
    using build_dependency_cache_last[of _ "list_domains s" ?f Map.empty]
    by (simp add: set_list_domains)
  have c: "load_dependency_cache (analyze_dependencies False True analyze sites cache_file) domain
        = (case load_dependency_cache cache_file domain of
             Some deps \<Rightarrow> Some deps
           | None \<Rightarrow> if domain \<in> set sites then Some (?f domain) else None)"
    using keep_fold[of ?f sites "load_dependency_cache cache_file" domain]
    by (simp add: analyze_dependencies_def load_dependency_cache_def)
  have d0: "fold (\<lambda>site cache. cache(site \<mapsto> ?f site)) sites Map.empty domain
        = (if domain \<in> set sites then Some (?f domain) else None)"
  proof (cases "domain \<in> set sites")
    case True
    then show ?thesis using build_dependency_cache_last[of domain sites ?f Map.empty] by simp
  next
    case False
    then have "domain \<notin> dom (fold (\<lambda>site cache. cache(site \<mapsto> ?f site)) sites Map.empty)"
      by (simp add: dom_build_fold)
    with False show ?thesis by (simp add: domIff)
  qed
  have d: "load_dependency_cache (analyze_dependencies True True analyze sites cache_file) domain
        = (if domain \<in> set sites then Some (?f domain) else None)"
    using d0 by (simp add: analyze_dependencies_def load_dependency_cache_def)
  show ?thesis
    using a b c d by (simp add: manager_apply_restrictions_def load_dependencies_def)
qed

theorem restrict_run_rebuilds_cache_witness:
  "dom (load_dependencies (snd (manager_apply_restrictions True True True analyze_fonts
        \<lparr>whitelist_file = Some ''example.com\<newline>'', readable = True, writable = True\<rparr>
        (Some [''old.com'' \<mapsto> [''fonts.gstatic.com'']])))) = {''example.com''}
   \<and> snd (manager_apply_restrictions False True True analyze_fonts
        \<lparr>whitelist_file = Some ''example.com\<newline>'', readable = True, writable = True\<rparr> None) = None
   \<and> load_dependency_cache (analyze_dependencies False True analyze_fonts [''example.com'']
        (Some [''old.com'' \<mapsto> []])) ''old.com'' = Some []"
proof -
  have w: "load_whitelist \<lparr>whitelist_file = Some ''example.com\<newline>'', readable = True, writable = True\<rparr>
      = {''example.com''}"
    by code_simp
  show ?thesis
    using w
      restrict_run_rebuilds_cache[where network_ok = True and usb_ok = True and cache_ok = True
        and analyze = analyze_fonts
        and s = "\<lparr>whitelist_file = Some ''example.com\<newline>'', readable = True, writable = True\<rparr>"
        and cache_file = "Some [''old.com'' \<mapsto> [''fonts.gstatic.com'']]"
        and sites = "[''example.com'']" and domain = "''old.com''"]
      restrict_run_rebuilds_cache[where network_ok = False and usb_ok = True and cache_ok = True
        and analyze = analyze_fonts
        and s = "\<lparr>whitelist_file = Some ''example.com\<newline>'', readable = True, writable = True\<rparr>"
        and cache_file = None and sites = "[''example.com'']" and domain = "''old.com''"]
      restrict_run_rebuilds_cache[where network_ok = True and usb_ok = True and cache_ok = True
        and analyze = analyze_fonts
        and s = "\<lparr>whitelist_file = Some ''example.com\<newline>'', readable = True, writable = True\<rparr>"
        and cache_file = "Some [''old.com'' \<mapsto> []]"
        and sites = "[''example.com'']" and domain = "''old.com''"]
    by (simp add: load_dependency_cache_def)
qed

section \<open>Claims about the network restrictor\<close>

text \<open>
  Claim C1. Restrictions are applied on a firewall that holds the built-in chains only,
  for any user, with the whitelist \<open>{example.com}\<close> and no dependencies. The resolver
  answers the A query for \<open>example.com\<close> with the single address 93.184.216.34 and gives
  no address (an empty answer or a DNS error) for every other name and record type. Then
  \<open>apply_restrictions\<close> returns without an exception and the user's output chain of the
  IPv4 table holds, in this order: accept established and related, accept loopback, accept
  DNS over UDP port 53, accept DNS over TCP port 53, accept destination 93.184.216.34,
  reject everything else.
\<close>

theorem apply_restrictions_example_rules:
  assumes "res ''example.com'' A = Answer [''93.184.216.34'']"
    and "\<forall>name rr. name \<noteq> ''example.com'' \<or> rr \<noteq> A \<longrightarrow>
           res name rr = Answer [] \<or> res name rr = DNSException"
  shows "fst (apply_restrictions (NetworkRestrictor usr uid) res valid_ipv6
                [''example.com''] [] fresh_firewall) = None
       \<and> map_of (ipv4 (snd (apply_restrictions (NetworkRestrictor usr uid) res valid_ipv6
                [''example.com''] [] fresh_firewall)))
            (chain_out (NetworkRestrictor usr uid))
         = Some [[''-m'', ''state'', ''--state'', ''ESTABLISHED,RELATED'', ''-j'', ''ACCEPT''],
                 [''-d'', ''127.0.0.0/8'', ''-j'', ''ACCEPT''],
                 [''-p'', ''udp'', ''--dport'', ''53'', ''-j'', ''ACCEPT''],
                 [''-p'', ''tcp'', ''--dport'', ''53'', ''-j'', ''ACCEPT''],
                 [''-d'', ''93.184.216.34'', ''-j'', ''ACCEPT''],
                 [''-j'', ''REJECT'', ''--reject-with'', ''icmp-host-unreachable'']]"
  by (simp add: apply_fresh[OF assms refl] map_of_created_out)

theorem apply_restrictions_example_rules_witness:
  "mock_resolver ''example.com'' A = Answer [''93.184.216.34'']
   \<and> mock_resolver ''www.example.com'' A = DNSException
   \<and> chain_out (NetworkRestrictor ''participant'' 1001) = ''CONTEST_PARTICIPANT_OUT''
   \<and> map_of (ipv4 (snd (apply_restrictions (NetworkRestrictor ''participant'' 1001) mock_resolver no_ipv6
                [''example.com''] [] fresh_firewall))) ''CONTEST_PARTICIPANT_OUT''
         = Some [[''-m'', ''state'', ''--state'', ''ESTABLISHED,RELATED'', ''-j'', ''ACCEPT''],
                 [''-d'', ''127.0.0.0/8'', ''-j'', ''ACCEPT''],
                 [''-p'', ''udp'', ''--dport'', ''53'', ''-j'', ''ACCEPT''],
                 [''-p'', ''tcp'', ''--dport'', ''53'', ''-j'', ''ACCEPT''],
                 [''-d'', ''93.184.216.34'', ''-j'', ''ACCEPT''],
                 [''-j'', ''REJECT'', ''--reject-with'', ''icmp-host-unreachable'']]"
proof -
  have h1: "mock_resolver ''example.com'' A = Answer [''93.184.216.34'']"
    by (simp add: mock_resolver_def)
  have h2: "\<forall>name rr. name \<noteq> ''example.com'' \<or> rr \<noteq> A \<longrightarrow>
           mock_resolver name rr = Answer [] \<or> mock_resolver name rr = DNSException"
    by (simp add: mock_resolver_def)
  have c: "chain_out (NetworkRestrictor ''participant'' 1001) = ''CONTEST_PARTICIPANT_OUT''"
    by code_simp
  have w: "mock_resolver ''www.example.com'' A = DNSException"
    by (simp add: mock_resolver_def)
  show ?thesis
    using h1 w c apply_restrictions_example_rules[OF h1 h2, of "''participant''" 1001 no_ipv6]
    by simp
qed

text \<open>
  Claim C2 says that after any number of applications the \<open>OUTPUT\<close> chain holds exactly one
  rule that binds the user's UID to the output chain, in the IPv4 and in the IPv6 table.
  \<open>clear_existing_rules\<close> deletes that rule with \<open>iptables -D\<close> only; the \<open>ip6tables -D\<close>
  that \<open>remove_restrictions\<close> runs is missing. Applying the restrictions twice for the user
  \<open>participant\<close> (UID 1001) leaves two identical bindings in the IPv6 \<open>OUTPUT\<close> chain and
  one in the IPv4 chain. Removing the restrictions between the two applications leaves one
  binding in the IPv6 chain as well.
\<close>

theorem reapplication_duplicates_ipv6_binding:
  "fst (apply_restrictions (NetworkRestrictor ''participant'' 1001) mock_resolver no_ipv6
          [''example.com''] []
          (snd (apply_restrictions (NetworkRestrictor ''participant'' 1001) mock_resolver no_ipv6
                  [''example.com''] [] fresh_firewall))) = None
   \<and> map_of (ipv6 (snd (apply_restrictions (NetworkRestrictor ''participant'' 1001) mock_resolver no_ipv6
          [''example.com''] []
          (snd (apply_restrictions (NetworkRestrictor ''participant'' 1001) mock_resolver no_ipv6
                  [''example.com''] [] fresh_firewall))))) ''OUTPUT''
      = Some [[''-m'', ''owner'', ''--uid-owner'', ''1001'', ''-j'', ''CONTEST_PARTICIPANT_OUT''],
              [''-m'', ''owner'', ''--uid-owner'', ''1001'', ''-j'', ''CONTEST_PARTICIPANT_OUT'']]
   \<and> map_of (ipv4 (snd (apply_restrictions (NetworkRestrictor ''participant'' 1001) mock_resolver no_ipv6
          [''example.com''] []
          (snd (apply_restrictions (NetworkRestrictor ''participant'' 1001) mock_resolver no_ipv6
                  [''example.com''] [] fresh_firewall))))) ''OUTPUT''
      = Some [[''-m'', ''owner'', ''--uid-owner'', ''1001'', ''-j'', ''CONTEST_PARTICIPANT_OUT'']]
   \<and> map_of (ipv6 (snd (apply_restrictions (NetworkRestrictor ''participant'' 1001) mock_resolver no_ipv6
          [''example.com''] []
          (snd (remove_restrictions (NetworkRestrictor ''participant'' 1001)
            (snd (apply_restrictions (NetworkRestrictor ''participant'' 1001) mock_resolver no_ipv6
                  [''example.com''] [] fresh_firewall))))))) ''OUTPUT''
      = Some [[''-m'', ''owner'', ''--uid-owner'', ''1001'', ''-j'', ''CONTEST_PARTICIPANT_OUT'']]"
  by code_simp

end
